theory Spec2Isabelle
  imports Complex_Main "HOL-Library.FSet"
begin

section \<open>JavaScript values\<close>

text \<open>
  The class \<^verbatim>\<open>Depth\<close> (the depth-sensing manager of the repository) is embedded as
  functions over a record of its fields. JavaScript numbers are idealised as reals;
  a value that is NaN or an infinity is the one value \<open>NonFinite\<close>, which is what
  a read outside a typed array (\<^verbatim>\<open>undefined\<close>, then a product with it) and a division
  by zero produce. Exceptions are values of \<open>error\<close>.
\<close>

datatype error = TypeError | RangeError

datatype 'a fin = Finite 'a | NonFinite

text \<open>
  A JavaScript array that is written by index may have holes: \<^verbatim>\<open>a[i] = v\<close> beyond the
  end extends the array, and a hole reads as \<^verbatim>\<open>undefined\<close> (\<open>None\<close>).
\<close>

definition js_get :: "'a option list \<Rightarrow> nat \<Rightarrow> 'a option" where
  "js_get xs i = (if i < length xs then xs ! i else None)"

definition js_set :: "'a option list \<Rightarrow> nat \<Rightarrow> 'a \<Rightarrow> 'a option list" where
  "js_set xs i v =
     (if i < length xs then xs[i := Some v]
      else xs @ replicate (i - length xs) None @ [Some v])"

text \<open>An array that only grows by \<^verbatim>\<open>push\<close> has no holes; a read past its end is undefined.\<close>

definition js_at :: "'a list \<Rightarrow> nat \<Rightarrow> 'a option" where
  "js_at xs i = (if i < length xs then Some (xs ! i) else None)"

text \<open>\<^verbatim>\<open>Math.round\<close> rounds to the nearest integer, a half towards plus infinity.\<close>

definition Math_round :: "real \<Rightarrow> int" where
  "Math_round r = \<lfloor>r + 1 / 2\<rfloor>"

text \<open>
  Modelled from the spec: \<^verbatim>\<open>clamp\<close> is imported from \<^verbatim>\<open>../utils/utils\<close>, which is not
  among the source files. The spec says that out-of-range inputs are clamped, not
  rejected: the value is limited to the interval from the lower to the upper bound.
\<close>

definition clamp :: "real \<Rightarrow> real \<Rightarrow> real \<Rightarrow> real" where
  "clamp val lo hi = min (max val lo) hi"

subsection \<open>Typed arrays\<close>

text \<open>
  A \<^verbatim>\<open>Float32Array\<close> or \<^verbatim>\<open>Uint16Array\<close> is the list of its elements. An
  \<^verbatim>\<open>ArrayBuffer\<close> is observed by the code only through the two typed-array
  constructors, so it is represented by the elements each of them exposes.
\<close>

type_synonym DepthArray = "real list"

datatype ArrayBuffer = ArrayBuffer (asUint16: "real list") (asFloat32: "real list")

definition new_Uint16Array :: "ArrayBuffer \<Rightarrow> DepthArray" where
  "new_Uint16Array buf = asUint16 buf"

definition new_Float32Array :: "ArrayBuffer \<Rightarrow> DepthArray" where
  "new_Float32Array buf = asFloat32 buf"

text \<open>An element read: an index outside the array reads \<^verbatim>\<open>undefined\<close>.\<close>

definition typed_get :: "DepthArray \<Rightarrow> int \<Rightarrow> real option" where
  "typed_get arr i = (if 0 \<le> i \<and> i < int (length arr) then Some (arr ! nat i) else None)"

text \<open>
  \<^verbatim>\<open>target.set(source)\<close> copies the source over the start of the target and raises a
  RangeError when the source is longer than the target.
\<close>

definition typed_set :: "DepthArray \<Rightarrow> DepthArray \<Rightarrow> error + DepthArray" where
  "typed_set target source =
     (if length target < length source then Inl RangeError
      else Inr (source @ drop (length source) target))"

text \<open>The product of a number and an element read: \<^verbatim>\<open>undefined\<close> makes it NaN.\<close>

definition times_raw :: "real \<Rightarrow> real option \<Rightarrow> real fin" where
  "times_raw r raw = (case raw of None \<Rightarrow> NonFinite | Some d \<Rightarrow> Finite (r * d))"

section \<open>The three.js values the class uses\<close>

text \<open>
  three.js is an external library. \<open>Vector3\<close>, \<open>Quaternion\<close> and \<open>Matrix4\<close> follow its
  documentation: a \<open>Matrix4\<close> holds sixteen elements in column-major order, a new one
  is the identity, \<^verbatim>\<open>multiplyMatrices(a, b)\<close> is the matrix product, \<^verbatim>\<open>invert()\<close>
  is the analytic inverse and produces the zero matrix when the determinant is zero,
  \<^verbatim>\<open>applyMatrix4\<close> multiplies a point by the matrix and divides by perspective.
\<close>

datatype Vector3 = Vector3 (v_x: real) (v_y: real) (v_z: real)

datatype Quaternion = Quaternion (q_x: real) (q_y: real) (q_z: real) (q_w: real)

datatype Matrix4 =
  Matrix4 real real real real  real real real real  real real real real  real real real real

definition new_Vector3 :: Vector3 where
  "new_Vector3 = Vector3 0 0 0"

definition new_Quaternion :: Quaternion where
  "new_Quaternion = Quaternion 0 0 0 1"

definition new_Matrix4 :: Matrix4 where
  "new_Matrix4 = Matrix4 1 0 0 0  0 1 0 0  0 0 1 0  0 0 0 1"

definition zero_Matrix4 :: Matrix4 where
  "zero_Matrix4 = Matrix4 0 0 0 0  0 0 0 0  0 0 0 0  0 0 0 0"

fun multiplyMatrices :: "Matrix4 \<Rightarrow> Matrix4 \<Rightarrow> Matrix4" where
  "multiplyMatrices
     (Matrix4 a11 a21 a31 a41  a12 a22 a32 a42  a13 a23 a33 a43  a14 a24 a34 a44)
     (Matrix4 b11 b21 b31 b41  b12 b22 b32 b42  b13 b23 b33 b43  b14 b24 b34 b44) =
   Matrix4
     (a11 * b11 + a12 * b21 + a13 * b31 + a14 * b41)
     (a21 * b11 + a22 * b21 + a23 * b31 + a24 * b41)
     (a31 * b11 + a32 * b21 + a33 * b31 + a34 * b41)
     (a41 * b11 + a42 * b21 + a43 * b31 + a44 * b41)
     (a11 * b12 + a12 * b22 + a13 * b32 + a14 * b42)
     (a21 * b12 + a22 * b22 + a23 * b32 + a24 * b42)
     (a31 * b12 + a32 * b22 + a33 * b32 + a34 * b42)
     (a41 * b12 + a42 * b22 + a43 * b32 + a44 * b42)
     (a11 * b13 + a12 * b23 + a13 * b33 + a14 * b43)
     (a21 * b13 + a22 * b23 + a23 * b33 + a24 * b43)
     (a31 * b13 + a32 * b23 + a33 * b33 + a34 * b43)
     (a41 * b13 + a42 * b23 + a43 * b33 + a44 * b43)
     (a11 * b14 + a12 * b24 + a13 * b34 + a14 * b44)
     (a21 * b14 + a22 * b24 + a23 * b34 + a24 * b44)
     (a31 * b14 + a32 * b24 + a33 * b34 + a34 * b44)
     (a41 * b14 + a42 * b24 + a43 * b34 + a44 * b44)"

fun determinant :: "Matrix4 \<Rightarrow> real" where
  "determinant
     (Matrix4 n11 n21 n31 n41  n12 n22 n32 n42  n13 n23 n33 n43  n14 n24 n34 n44) =
   n11 * (n22 * n33 * n44 - n22 * n34 * n43 - n23 * n32 * n44
          + n23 * n34 * n42 + n24 * n32 * n43 - n24 * n33 * n42)
   + n21 * (- n12 * n33 * n44 + n12 * n34 * n43 + n13 * n32 * n44
          - n13 * n34 * n42 - n14 * n32 * n43 + n14 * n33 * n42)
   + n31 * (n12 * n23 * n44 - n12 * n24 * n43 - n13 * n22 * n44
          + n13 * n24 * n42 + n14 * n22 * n43 - n14 * n23 * n42)
   + n41 * (- n12 * n23 * n34 + n12 * n24 * n33 + n13 * n22 * n34
          - n13 * n24 * n32 - n14 * n22 * n33 + n14 * n23 * n32)"

text \<open>The adjugate: the transposed matrix of cofactors, \<open>t\<^sub>i\<^sub>j\<close> in row \<open>i\<close>, column \<open>j\<close>.\<close>

fun adjugate :: "Matrix4 \<Rightarrow> Matrix4" where
  "adjugate
     (Matrix4 n11 n21 n31 n41  n12 n22 n32 n42  n13 n23 n33 n43  n14 n24 n34 n44) =
   Matrix4
     (n22 * n33 * n44 - n22 * n34 * n43 - n23 * n32 * n44
        + n23 * n34 * n42 + n24 * n32 * n43 - n24 * n33 * n42)
     (- n21 * n33 * n44 + n21 * n34 * n43 + n23 * n31 * n44
        - n23 * n34 * n41 - n24 * n31 * n43 + n24 * n33 * n41)
     (n21 * n32 * n44 - n21 * n34 * n42 - n22 * n31 * n44
        + n22 * n34 * n41 + n24 * n31 * n42 - n24 * n32 * n41)
     (- n21 * n32 * n43 + n21 * n33 * n42 + n22 * n31 * n43
        - n22 * n33 * n41 - n23 * n31 * n42 + n23 * n32 * n41)
     (- n12 * n33 * n44 + n12 * n34 * n43 + n13 * n32 * n44
        - n13 * n34 * n42 - n14 * n32 * n43 + n14 * n33 * n42)
     (n11 * n33 * n44 - n11 * n34 * n43 - n13 * n31 * n44
        + n13 * n34 * n41 + n14 * n31 * n43 - n14 * n33 * n41)
     (- n11 * n32 * n44 + n11 * n34 * n42 + n12 * n31 * n44
        - n12 * n34 * n41 - n14 * n31 * n42 + n14 * n32 * n41)
     (n11 * n32 * n43 - n11 * n33 * n42 - n12 * n31 * n43
        + n12 * n33 * n41 + n13 * n31 * n42 - n13 * n32 * n41)
     (n12 * n23 * n44 - n12 * n24 * n43 - n13 * n22 * n44
        + n13 * n24 * n42 + n14 * n22 * n43 - n14 * n23 * n42)
     (- n11 * n23 * n44 + n11 * n24 * n43 + n13 * n21 * n44
        - n13 * n24 * n41 - n14 * n21 * n43 + n14 * n23 * n41)
     (n11 * n22 * n44 - n11 * n24 * n42 - n12 * n21 * n44
        + n12 * n24 * n41 + n14 * n21 * n42 - n14 * n22 * n41)
     (- n11 * n22 * n43 + n11 * n23 * n42 + n12 * n21 * n43
        - n12 * n23 * n41 - n13 * n21 * n42 + n13 * n22 * n41)
     (- n12 * n23 * n34 + n12 * n24 * n33 + n13 * n22 * n34
        - n13 * n24 * n32 - n14 * n22 * n33 + n14 * n23 * n32)
     (n11 * n23 * n34 - n11 * n24 * n33 - n13 * n21 * n34
        + n13 * n24 * n31 + n14 * n21 * n33 - n14 * n23 * n31)
     (- n11 * n22 * n34 + n11 * n24 * n32 + n12 * n21 * n34
        - n12 * n24 * n31 - n14 * n21 * n32 + n14 * n22 * n31)
     (n11 * n22 * n33 - n11 * n23 * n32 - n12 * n21 * n33
        + n12 * n23 * n31 + n13 * n21 * n32 - n13 * n22 * n31)"

fun multiplyScalar4 :: "Matrix4 \<Rightarrow> real \<Rightarrow> Matrix4" where
  "multiplyScalar4
     (Matrix4 n11 n21 n31 n41  n12 n22 n32 n42  n13 n23 n33 n43  n14 n24 n34 n44) s =
   Matrix4 (n11 * s) (n21 * s) (n31 * s) (n41 * s)  (n12 * s) (n22 * s) (n32 * s) (n42 * s)
     (n13 * s) (n23 * s) (n33 * s) (n43 * s)  (n14 * s) (n24 * s) (n34 * s) (n44 * s)"

definition invert :: "Matrix4 \<Rightarrow> Matrix4" where
  "invert m =
     (if determinant m = 0 then zero_Matrix4
      else multiplyScalar4 (adjugate m) (1 / determinant m))"

text \<open>
  \<^verbatim>\<open>v.applyMatrix4(m)\<close>: the divisor is \<open>1 / (e\<^sub>3 x + e\<^sub>7 y + e\<^sub>1\<^sub>1 z + e\<^sub>1\<^sub>5)\<close>; when
  that sum is zero the divisor is an infinity and every component of the result is
  an infinity or NaN.
\<close>

fun applyMatrix4 :: "Vector3 \<Rightarrow> Matrix4 \<Rightarrow> Vector3 fin" where
  "applyMatrix4 (Vector3 x y z)
     (Matrix4 e0 e1 e2 e3  e4 e5 e6 e7  e8 e9 e10 e11  e12 e13 e14 e15) =
   (if e3 * x + e7 * y + e11 * z + e15 = 0 then NonFinite
    else Finite (Vector3
      ((e0 * x + e4 * y + e8 * z + e12) * (1 / (e3 * x + e7 * y + e11 * z + e15)))
      ((e1 * x + e5 * y + e9 * z + e13) * (1 / (e3 * x + e7 * y + e11 * z + e15)))
      ((e2 * x + e6 * y + e10 * z + e14) * (1 / (e3 * x + e7 * y + e11 * z + e15)))))"

fun multiplyScalar :: "Vector3 \<Rightarrow> real \<Rightarrow> Vector3" where
  "multiplyScalar (Vector3 x y z) s = Vector3 (x * s) (y * s) (z * s)"

section \<open>The data of the session, the frame and the renderer\<close>

text \<open>
  A \<^verbatim>\<open>Float32Array\<close> of sixteen elements in column-major order, as WebXR delivers a
  projection matrix and a transform's matrix, is written as the \<open>Matrix4\<close> with these
  elements, so that \<^verbatim>\<open>fromArray\<close> and \<^verbatim>\<open>copy\<close> both store their argument.
\<close>

record Camera =
  projectionMatrix :: Matrix4
  matrixWorldInverse :: Matrix4
  position :: Vector3
  quaternion :: Quaternion

record XRRigidTransform =
  position :: Vector3
  orientation :: Quaternion
  inverse_matrix :: Matrix4

record XRDepthInformation =
  width :: nat
  height :: nat
  rawValueToMeters :: real
  projectionMatrix :: "Matrix4 option"
  transform :: "XRRigidTransform option"

record XRCPUDepthInformation = XRDepthInformation +
  data :: ArrayBuffer

record XRWebGLDepthInformation = XRDepthInformation +
  texture :: nat

type_synonym XRView = nat

datatype XRReferenceSpace = XRReferenceSpace

text \<open>
  \<open>depthActive\<close> is \<open>None\<close> when the session does not define it; the two optional
  methods are present or not.
\<close>

record XRSession =
  depthActive :: "bool option"
  depthUsage :: string
  pauseDepthSensing :: bool
  resumeDepthSensing :: bool

record XRFrame =
  session :: XRSession
  getViewerPose :: "XRReferenceSpace \<Rightarrow> XRView list option"
  getDepthInformation :: "XRView \<Rightarrow> XRCPUDepthInformation option"

record WebGLRenderer =
  xr_getBinding_getDepthInformation :: "XRView \<Rightarrow> XRWebGLDepthInformation option"
  xr_getReferenceSpace :: "XRReferenceSpace option"
  xr_getCamera_cameras :: "Camera list"

record DepthOptions =
  enabled :: bool
  depthTexture_enabled :: bool
  depthMesh_enabled :: bool
  occlusion_enabled :: bool
  useFloat32 :: bool

text \<open>
  \<^verbatim>\<open>DepthMesh\<close>, \<^verbatim>\<open>DepthTextures\<close> and \<^verbatim>\<open>OcclusionPass\<close> are classes of the repository
  that are not among the source files. Of the mesh the class writes the position and
  the quaternion and calls \<^verbatim>\<open>convertGPUToGPU\<close>, which is taken as a parameter: it
  returns a CPU depth information or null. The other calls on the collaborators are
  recorded in a log.
\<close>

record DepthMesh =
  position :: Vector3
  quaternion :: Quaternion
  convertGPUToGPU :: "XRWebGLDepthInformation \<Rightarrow> XRCPUDepthInformation option"

datatype DepthTextures = DepthTextures

datatype OcclusionPass = OcclusionPass

datatype call =
    Session_pauseDepthSensing
  | Session_resumeDepthSensing
  | DepthMesh_convertGPUToGPU
  | DepthMesh_updateDepth
  | DepthMesh_updateGPUDepth
  | DepthTextures_updateData nat
  | DepthTextures_updateNativeTexture nat
  | Console_error

section \<open>The state of the class Depth\<close>

text \<open>
  The fields of the class that its methods below read or write, under their names.
  A client handle is an object, compared by identity. The last field, \<open>calls\<close>, is
  not a field of the class: it is the log of the calls that the methods make on the
  session, the depth mesh, the depth textures and the console, in their order. The
  methods \<^verbatim>\<open>update\<close>, \<^verbatim>\<open>getTexture\<close>, \<^verbatim>\<open>renderOcclusionPass\<close> and \<^verbatim>\<open>debugLog\<close>
  write no field of the class apart from what \<^verbatim>\<open>updateLocalDepth\<close> writes; they
  and the set \<^verbatim>\<open>occludableShaders\<close> are left out.
\<close>

type_synonym object = nat

record Depth =
  camera :: Camera
  renderer :: WebGLRenderer
  enabled :: bool
  view :: "XRView option list"
  cpuDepthData :: "XRCPUDepthInformation option list"
  gpuDepthData :: "XRWebGLDepthInformation option list"
  depthArray :: "DepthArray option list"
  depthMesh :: "DepthMesh option"
  depthTextures :: "DepthTextures option"
  options :: DepthOptions
  width :: nat
  height :: nat
  occlusionPass :: "OcclusionPass option"
  depthClientsInitialized :: bool
  depthClients :: "object fset"
  depthProjectionMatrices :: "Matrix4 list"
  depthProjectionInverseMatrices :: "Matrix4 list"
  depthViewMatrices :: "Matrix4 list"
  depthViewProjectionMatrices :: "Matrix4 list"
  depthCameraPositions :: "Vector3 list"
  depthCameraRotations :: "Quaternion list"
  calls :: "call list"

definition DEFAULT_DEPTH_WIDTH :: nat where
  "DEFAULT_DEPTH_WIDTH = 160"

definition DEFAULT_DEPTH_HEIGHT :: nat where
  "DEFAULT_DEPTH_HEIGHT = DEFAULT_DEPTH_WIDTH"

text \<open>
  The state after \<^verbatim>\<open>new Depth()\<close> and \<^verbatim>\<open>init(camera, options, renderer, registry, scene)\<close>:
  the field initialisers, then the assignments of \<^verbatim>\<open>init\<close>. The registry, the scene
  and the renderer's shadow map are not part of the state; \<open>conv\<close> is the conversion
  of the mesh that \<^verbatim>\<open>init\<close> constructs.
\<close>

definition init ::
  "Camera \<Rightarrow> DepthOptions \<Rightarrow> WebGLRenderer \<Rightarrow>
   (XRWebGLDepthInformation \<Rightarrow> XRCPUDepthInformation option) \<Rightarrow> Depth" where
  "init cam opts rend conv =
     \<lparr> camera = cam,
       renderer = rend,
       enabled = DepthOptions.enabled opts,
       view = [],
       cpuDepthData = [],
       gpuDepthData = [],
       depthArray = [],
       depthMesh =
         (if depthMesh_enabled opts
          then Some \<lparr> DepthMesh.position = new_Vector3,
                      DepthMesh.quaternion = new_Quaternion,
                      convertGPUToGPU = conv \<rparr>
          else None),
       depthTextures = (if depthTexture_enabled opts then Some DepthTextures else None),
       options = opts,
       width = DEFAULT_DEPTH_WIDTH,
       height = DEFAULT_DEPTH_HEIGHT,
       occlusionPass = (if occlusion_enabled opts then Some OcclusionPass else None),
       depthClientsInitialized = False,
       depthClients = {||},
       depthProjectionMatrices = [],
       depthProjectionInverseMatrices = [],
       depthViewMatrices = [],
       depthViewProjectionMatrices = [],
       depthCameraPositions = [],
       depthCameraRotations = [],
       calls = [] \<rparr>"

section \<open>The queries\<close>

text \<open>The getter \<^verbatim>\<open>rawValueToMeters\<close>; reading a property of a hole raises a TypeError.\<close>

definition rawValueToMeters :: "Depth \<Rightarrow> error + real" where
  "rawValueToMeters s =
     (if cpuDepthData s \<noteq> [] then
        (case js_get (cpuDepthData s) 0 of
           None \<Rightarrow> Inl TypeError
         | Some d \<Rightarrow> Inr (XRDepthInformation.rawValueToMeters d))
      else if gpuDepthData s \<noteq> [] then
        (case js_get (gpuDepthData s) 0 of
           None \<Rightarrow> Inl TypeError
         | Some d \<Rightarrow> Inr (XRDepthInformation.rawValueToMeters d))
      else Inr 0)"

text \<open>
  The column, the row and the index that \<^verbatim>\<open>getDepth\<close> and \<^verbatim>\<open>getVertex\<close> compute
  from \<open>u\<close> and \<open>v\<close>; \<open>v\<close> is measured from the top, the rows of the buffer from the
  bottom.
\<close>

definition depthX :: "real \<Rightarrow> Depth \<Rightarrow> int" where
  "depthX u s = Math_round (clamp (u * real (width s)) 0 (real (width s) - 1))"

definition depthY :: "real \<Rightarrow> Depth \<Rightarrow> int" where
  "depthY v s = Math_round (clamp ((1.0 - v) * real (height s)) 0 (real (height s) - 1))"

definition depthIndex :: "real \<Rightarrow> real \<Rightarrow> Depth \<Rightarrow> int" where
  "depthIndex u v s = depthY v s * int (width s) + depthX u s"

definition getDepth :: "real \<Rightarrow> real \<Rightarrow> Depth \<Rightarrow> error + real fin" where
  "getDepth u v s =
     (case js_get (depthArray s) 0 of
        None \<Rightarrow> Inr (Finite 0.0)
      | Some arr \<Rightarrow>
          (case rawValueToMeters s of
             Inl e \<Rightarrow> Inl e
           | Inr r \<Rightarrow> Inr (times_raw r (typed_get arr (depthIndex u v s)))))"

text \<open>
  \<^verbatim>\<open>p.multiplyScalar(-depth / p.z)\<close> on the result \<open>p\<close> of \<^verbatim>\<open>applyMatrix4\<close>. When the
  depth is NaN, when \<open>p.z\<close> is zero (the quotient is an infinity or NaN and so is every
  product with it) or when \<open>p\<close> is not finite (the quotient is zero or NaN and every
  product is NaN), no component of the result is finite.
\<close>

definition scaleToDepth :: "real fin \<Rightarrow> Vector3 fin \<Rightarrow> Vector3 fin" where
  "scaleToDepth depth p =
     (case depth of
        NonFinite \<Rightarrow> NonFinite
      | Finite d \<Rightarrow>
          (case p of
             NonFinite \<Rightarrow> NonFinite
           | Finite w \<Rightarrow>
               if v_z w = 0 then NonFinite else Finite (multiplyScalar w (- d / v_z w))))"

text \<open>\<^verbatim>\<open>getVertex\<close> returns null (\<open>None\<close>) when there is no depth array for view 0.\<close>

definition getVertex :: "real \<Rightarrow> real \<Rightarrow> Depth \<Rightarrow> error + Vector3 fin option" where
  "getVertex u v s =
     (case js_get (depthArray s) 0 of
        None \<Rightarrow> Inr None
      | Some arr \<Rightarrow>
          (case rawValueToMeters s of
             Inl e \<Rightarrow> Inl e
           | Inr r \<Rightarrow>
               (case js_at (depthProjectionInverseMatrices s) 0 of
                  None \<Rightarrow> Inl TypeError
                | Some m \<Rightarrow>
                    Inr (Some (scaleToDepth
                      (times_raw r (typed_get arr (depthIndex u v s)))
                      (applyMatrix4 (Vector3 (2.0 * (u - 0.5)) (2.0 * (v - 0.5)) (- 1)) m))))))"

text \<open>
  \<^verbatim>\<open>getProjectedDepthViewPositionFromWorldPosition\<close>. \<^verbatim>\<open>applyMatrix4\<close> reads the
  elements of its argument, so an absent matrix raises a TypeError. When the clip
  space position is not finite, \<open>u\<close> and \<open>v\<close> are not finite, \<^verbatim>\<open>getDepth\<close> raises what
  the getter raises, and no component of the result is finite.
\<close>

definition getProjectedDepthViewPositionFromWorldPosition ::
  "Vector3 \<Rightarrow> Depth \<Rightarrow> error + Vector3 fin" where
  "getProjectedDepthViewPositionFromWorldPosition pos s =
     (case js_at (depthViewMatrices s) 0 of
        None \<Rightarrow> Inl TypeError
      | Some vm \<Rightarrow>
     (case js_at (depthProjectionMatrices s) 0 of
        None \<Rightarrow> Inl TypeError
      | Some pm \<Rightarrow>
     (case (case applyMatrix4 pos vm of
              NonFinite \<Rightarrow> NonFinite
            | Finite q \<Rightarrow> applyMatrix4 q pm) of
        NonFinite \<Rightarrow>
          (case js_get (depthArray s) 0 of
             None \<Rightarrow>
               (case js_at (depthProjectionInverseMatrices s) 0 of
                  None \<Rightarrow> Inl TypeError
                | Some m \<Rightarrow> Inr NonFinite)
           | Some arr \<Rightarrow>
               (case rawValueToMeters s of
                  Inl e \<Rightarrow> Inl e
                | Inr r \<Rightarrow>
                    (case js_at (depthProjectionInverseMatrices s) 0 of
                       None \<Rightarrow> Inl TypeError
                     | Some m \<Rightarrow> Inr NonFinite)))
      | Finite clipSpacePosition \<Rightarrow>
          (let u = 0.5 * (v_x clipSpacePosition + 1.0);
               v = 0.5 * (v_y clipSpacePosition + 1.0)
           in case getDepth u v s of
                Inl e \<Rightarrow> Inl e
              | Inr depth \<Rightarrow>
                  (case js_at (depthProjectionInverseMatrices s) 0 of
                     None \<Rightarrow> Inl TypeError
                   | Some m \<Rightarrow>
                       Inr (scaleToDepth depth
                         (applyMatrix4 (Vector3 (2.0 * (u - 0.5)) (2.0 * (v - 0.5)) (- 1)) m)))))))"

section \<open>Ingestion\<close>

text \<open>
  A method that writes the state completes normally with the new state, or raises
  with the state as the writes before the exception left it.
\<close>

datatype 'a completion = Done 'a | Thrown error 'a

text \<open>Statements in sequence: an exception ends the sequence.\<close>

fun statements :: "('a \<Rightarrow> 'a completion) list \<Rightarrow> 'a \<Rightarrow> 'a completion" where
  "statements [] s = Done s"
| "statements (f # fs) s =
     (case f s of
        Done s' \<Rightarrow> statements fs s'
      | Thrown e s' \<Rightarrow> Thrown e s')"

definition logCall :: "call \<Rightarrow> Depth \<Rightarrow> Depth" where
  "logCall c s = s\<lparr>calls := calls s @ [c]\<rparr>"

text \<open>
  \<^verbatim>\<open>this.array[viewId].copy(m)\<close> and the like: a method call on an element of an
  array; on an absent element it raises a TypeError.
\<close>

definition write_at :: "'a list \<Rightarrow> nat \<Rightarrow> 'a \<Rightarrow> error + 'a list" where
  "write_at xs i v = (if i < length xs then Inr (xs[i := v]) else Inl TypeError)"

definition set_depthProjectionMatrix :: "nat \<Rightarrow> Matrix4 \<Rightarrow> Depth \<Rightarrow> Depth completion" where
  "set_depthProjectionMatrix viewId m s =
     (case write_at (depthProjectionMatrices s) viewId m of
        Inl e \<Rightarrow> Thrown e s
      | Inr xs \<Rightarrow> Done (s\<lparr>depthProjectionMatrices := xs\<rparr>))"

definition set_depthViewMatrix :: "nat \<Rightarrow> Matrix4 \<Rightarrow> Depth \<Rightarrow> Depth completion" where
  "set_depthViewMatrix viewId m s =
     (case write_at (depthViewMatrices s) viewId m of
        Inl e \<Rightarrow> Thrown e s
      | Inr xs \<Rightarrow> Done (s\<lparr>depthViewMatrices := xs\<rparr>))"

definition set_depthCameraPosition :: "nat \<Rightarrow> Vector3 \<Rightarrow> Depth \<Rightarrow> Depth completion" where
  "set_depthCameraPosition viewId p s =
     (case write_at (depthCameraPositions s) viewId p of
        Inl e \<Rightarrow> Thrown e s
      | Inr xs \<Rightarrow> Done (s\<lparr>depthCameraPositions := xs\<rparr>))"

definition set_depthCameraRotation :: "nat \<Rightarrow> Quaternion \<Rightarrow> Depth \<Rightarrow> Depth completion" where
  "set_depthCameraRotation viewId q s =
     (case write_at (depthCameraRotations s) viewId q of
        Inl e \<Rightarrow> Thrown e s
      | Inr xs \<Rightarrow> Done (s\<lparr>depthCameraRotations := xs\<rparr>))"

text \<open>
  \<^verbatim>\<open>this.depthProjectionInverseMatrices[viewId].copy(this.depthProjectionMatrices[viewId]).invert()\<close>
\<close>

definition set_depthProjectionInverseMatrix :: "nat \<Rightarrow> Depth \<Rightarrow> Depth completion" where
  "set_depthProjectionInverseMatrix viewId s =
     (case js_at (depthProjectionMatrices s) viewId of
        None \<Rightarrow> Thrown TypeError s
      | Some pm \<Rightarrow>
          (case write_at (depthProjectionInverseMatrices s) viewId (invert pm) of
             Inl e \<Rightarrow> Thrown e s
           | Inr xs \<Rightarrow> Done (s\<lparr>depthProjectionInverseMatrices := xs\<rparr>)))"

text \<open>
  \<^verbatim>\<open>this.depthViewProjectionMatrices[viewId].multiplyMatrices(this.depthProjectionMatrices[viewId], this.depthViewMatrices[viewId])\<close>
\<close>

definition set_depthViewProjectionMatrix :: "nat \<Rightarrow> Depth \<Rightarrow> Depth completion" where
  "set_depthViewProjectionMatrix viewId s =
     (case js_at (depthProjectionMatrices s) viewId of
        None \<Rightarrow> Thrown TypeError s
      | Some pm \<Rightarrow>
          (case js_at (depthViewMatrices s) viewId of
             None \<Rightarrow> Thrown TypeError s
           | Some vm \<Rightarrow>
               (case write_at (depthViewProjectionMatrices s) viewId (multiplyMatrices pm vm) of
                  Inl e \<Rightarrow> Thrown e s
                | Inr xs \<Rightarrow> Done (s\<lparr>depthViewProjectionMatrices := xs\<rparr>))))"

text \<open>The loop that appends default entries until the index \<open>viewId\<close> exists.\<close>

function populate :: "nat \<Rightarrow> Depth \<Rightarrow> Depth" where
  "populate viewId s =
     (if viewId \<ge> length (depthViewMatrices s) then
        populate viewId
          (s\<lparr>depthViewMatrices := depthViewMatrices s @ [new_Matrix4],
             depthViewProjectionMatrices := depthViewProjectionMatrices s @ [new_Matrix4],
             depthProjectionMatrices := depthProjectionMatrices s @ [new_Matrix4],
             depthProjectionInverseMatrices := depthProjectionInverseMatrices s @ [new_Matrix4],
             depthCameraPositions := depthCameraPositions s @ [new_Vector3],
             depthCameraRotations := depthCameraRotations s @ [new_Quaternion]\<rparr>)
      else s)"
  by pat_completeness auto
termination
  by (relation "measure (\<lambda>(viewId, s). Suc viewId - length (depthViewMatrices s))") auto

declare populate.simps [simp del]

text \<open>
  The camera of the fallback path:
  \<^verbatim>\<open>this.renderer.xr?.getCamera()?.cameras?.[viewId] ?? this.camera\<close>
\<close>

definition fallbackCamera :: "nat \<Rightarrow> Depth \<Rightarrow> Camera" where
  "fallbackCamera viewId s =
     (case js_at (xr_getCamera_cameras (renderer s)) viewId of
        Some c \<Rightarrow> c
      | None \<Rightarrow> camera s)"

text \<open>The two sources of the matrices and the pose of a view.\<close>

definition copySessionPose ::
  "nat \<Rightarrow> Matrix4 \<Rightarrow> XRRigidTransform \<Rightarrow> Depth \<Rightarrow> Depth completion" where
  "copySessionPose viewId pm tr s =
     statements
       [set_depthProjectionMatrix viewId pm,
        set_depthViewMatrix viewId (inverse_matrix tr),
        set_depthCameraPosition viewId (XRRigidTransform.position tr),
        set_depthCameraRotation viewId (orientation tr)] s"

definition copyCameraPose :: "nat \<Rightarrow> Camera \<Rightarrow> Depth \<Rightarrow> Depth completion" where
  "copyCameraPose viewId cam s =
     statements
       [set_depthProjectionMatrix viewId (Camera.projectionMatrix cam),
        set_depthViewMatrix viewId (matrixWorldInverse cam),
        set_depthCameraPosition viewId (Camera.position cam),
        set_depthCameraRotation viewId (Camera.quaternion cam)] s"

definition updateDepthMatrices ::
  "'a XRDepthInformation_scheme \<Rightarrow> nat \<Rightarrow> Depth \<Rightarrow> Depth completion" where
  "updateDepthMatrices depthData viewId s =
     statements
       [(\<lambda>s. Done (populate viewId s)),
        (\<lambda>s.
           case XRDepthInformation.projectionMatrix depthData of
             None \<Rightarrow> copyCameraPose viewId (fallbackCamera viewId s) s
           | Some pm \<Rightarrow>
               (case transform depthData of
                  None \<Rightarrow> copyCameraPose viewId (fallbackCamera viewId s) s
                | Some tr \<Rightarrow> copySessionPose viewId pm tr s)),
        set_depthProjectionInverseMatrix viewId,
        set_depthViewProjectionMatrix viewId] s"

text \<open>
  The typed array made of a buffer:
  \<^verbatim>\<open>this.options.useFloat32 ? new Float32Array(data) : new Uint16Array(data)\<close>
\<close>

definition newDepthArray :: "ArrayBuffer \<Rightarrow> Depth \<Rightarrow> DepthArray" where
  "newDepthArray buf s =
     (if useFloat32 (options s) then new_Float32Array buf else new_Uint16Array buf)"

text \<open>
  The mesh follows the depth camera of view 0: \<^verbatim>\<open>copy\<close> reads the components of its
  argument, so an absent pose raises a TypeError.
\<close>

definition moveDepthMesh :: "Depth \<Rightarrow> Depth completion" where
  "moveDepthMesh s =
     (case depthMesh s of
        None \<Rightarrow> Thrown TypeError s
      | Some m \<Rightarrow>
          (case js_at (depthCameraPositions s) 0 of
             None \<Rightarrow> Thrown TypeError s
           | Some p \<Rightarrow>
               (case js_at (depthCameraRotations s) 0 of
                  None \<Rightarrow> Thrown TypeError (s\<lparr>depthMesh := Some (m\<lparr>DepthMesh.position := p\<rparr>)\<rparr>)
                | Some q \<Rightarrow>
                    Done (s\<lparr>depthMesh :=
                      Some (m\<lparr>DepthMesh.position := p, DepthMesh.quaternion := q\<rparr>)\<rparr>))))"

definition updateCPUDepthData ::
  "XRCPUDepthInformation \<Rightarrow> nat \<Rightarrow> Depth \<Rightarrow> Depth completion" where
  "updateCPUDepthData depthData viewId s =
     statements
       [(\<lambda>s. Done (s\<lparr>cpuDepthData := js_set (cpuDepthData s) viewId depthData\<rparr>)),
        updateDepthMatrices depthData viewId,
        (\<lambda>s. Done (s\<lparr>depthArray :=
                        js_set (depthArray s) viewId (newDepthArray (data depthData) s),
                      width := XRDepthInformation.width depthData,
                      height := XRDepthInformation.height depthData\<rparr>)),
        (\<lambda>s. Done (if depthTexture_enabled (options s) \<and> depthTextures s \<noteq> None
                    then logCall (DepthTextures_updateData viewId) s else s)),
        (\<lambda>s. if depthMesh_enabled (options s) \<and> depthMesh s \<noteq> None \<and> viewId = 0
              then moveDepthMesh (logCall DepthMesh_updateDepth s)
              else Done s)] s"

text \<open>
  The conversion of the GPU path:
  \<^verbatim>\<open>needCpuDepth && this.depthMesh ? this.depthMesh.convertGPUToGPU(depthData) : null\<close>
\<close>

definition cpuDepthOf :: "XRWebGLDepthInformation \<Rightarrow> Depth \<Rightarrow> XRCPUDepthInformation option" where
  "cpuDepthOf depthData s =
     (if depthMesh_enabled (options s) then
        (case depthMesh s of
           None \<Rightarrow> None
         | Some m \<Rightarrow> convertGPUToGPU m depthData)
      else None)"

definition storeCpuDepth :: "XRCPUDepthInformation option \<Rightarrow> nat \<Rightarrow> Depth \<Rightarrow> Depth completion" where
  "storeCpuDepth cpuDepth viewId s =
     (case cpuDepth of
        None \<Rightarrow> Done s
      | Some c \<Rightarrow>
          (case js_get (depthArray s) viewId of
             None \<Rightarrow>
               Done (s\<lparr>depthArray := js_set (depthArray s) viewId (newDepthArray (data c) s),
                       width := XRDepthInformation.width c,
                       height := XRDepthInformation.height c\<rparr>)
           | Some arr \<Rightarrow>
               (case typed_set arr (newDepthArray (data c) s) of
                  Inl e \<Rightarrow> Thrown e s
                | Inr arr' \<Rightarrow> Done (s\<lparr>depthArray := js_set (depthArray s) viewId arr'\<rparr>))))"

definition updateGPUDepthData ::
  "XRWebGLDepthInformation \<Rightarrow> nat \<Rightarrow> Depth \<Rightarrow> Depth completion" where
  "updateGPUDepthData depthData viewId s =
     statements
       [(\<lambda>s. Done (s\<lparr>gpuDepthData := js_set (gpuDepthData s) viewId depthData\<rparr>)),
        updateDepthMatrices depthData viewId,
        (\<lambda>s. Done (if depthMesh_enabled (options s) \<and> depthMesh s \<noteq> None
                    then logCall DepthMesh_convertGPUToGPU s else s)),
        (\<lambda>s. storeCpuDepth (cpuDepthOf depthData s) viewId s),
        (\<lambda>s. Done (if depthTexture_enabled (options s) \<and> depthTextures s \<noteq> None
                    then logCall (DepthTextures_updateNativeTexture viewId) s else s)),
        (\<lambda>s. if depthMesh_enabled (options s) \<and> depthMesh s \<noteq> None \<and> viewId = 0
              then moveDepthMesh
                     (logCall (if cpuDepthOf depthData s \<noteq> None then DepthMesh_updateDepth
                           else DepthMesh_updateGPUDepth) s)
              else Done s)] s"

text \<open>
  The loop of \<^verbatim>\<open>updateLocalDepth\<close> over \<^verbatim>\<open>pose.views\<close>, from the index \<open>viewId\<close> on. A
  view without depth information returns from the method.
\<close>

fun ingestViews :: "XRFrame \<Rightarrow> XRView list \<Rightarrow> nat \<Rightarrow> Depth \<Rightarrow> Depth completion" where
  "ingestViews frame [] viewId s = Done s"
| "ingestViews frame (xrView # rest) viewId s =
     (if depthUsage (session frame) = ''gpu-optimized'' then
        (case xr_getBinding_getDepthInformation (renderer s) xrView of
           None \<Rightarrow> Done (s\<lparr>view := js_set (view s) viewId xrView\<rparr>)
         | Some depthData \<Rightarrow>
             (case updateGPUDepthData depthData viewId
                     (s\<lparr>view := js_set (view s) viewId xrView\<rparr>) of
                Thrown e s' \<Rightarrow> Thrown e s'
              | Done s' \<Rightarrow> ingestViews frame rest (Suc viewId) s'))
      else
        (case getDepthInformation frame xrView of
           None \<Rightarrow> Done (s\<lparr>view := js_set (view s) viewId xrView\<rparr>)
         | Some depthData \<Rightarrow>
             (case updateCPUDepthData depthData viewId
                     (s\<lparr>view := js_set (view s) viewId xrView\<rparr>) of
                Thrown e s' \<Rightarrow> Thrown e s'
              | Done s' \<Rightarrow> ingestViews frame rest (Suc viewId) s')))"

text \<open>The part of \<^verbatim>\<open>updateLocalDepth\<close> after the gate: the pose and its views.\<close>

definition ingestFrame :: "XRFrame \<Rightarrow> Depth \<Rightarrow> Depth completion" where
  "ingestFrame frame s =
     (case xr_getReferenceSpace (renderer s) of
        None \<Rightarrow> Done s
      | Some xrRefSpace \<Rightarrow>
          (case getViewerPose frame xrRefSpace of
             None \<Rightarrow> Done (logCall Console_error s)
           | Some views \<Rightarrow> ingestViews frame views 0 s))"

text \<open>
  The gate of \<^verbatim>\<open>updateLocalDepth\<close>: the session is told to pause or to resume, and
  with no client the method returns.
\<close>

definition gateSession :: "XRSession \<Rightarrow> Depth \<Rightarrow> Depth" where
  "gateSession sess s =
     (if depthActive sess = Some True \<and> \<not> fcard (depthClients s) > 0 then
        (if pauseDepthSensing sess then logCall Session_pauseDepthSensing s else s)
      else if depthActive sess \<noteq> Some True \<and> fcard (depthClients s) > 0 then
        (if resumeDepthSensing sess then logCall Session_resumeDepthSensing s else s)
      else s)"

definition updateLocalDepth :: "XRFrame \<Rightarrow> Depth \<Rightarrow> Depth completion" where
  "updateLocalDepth frame s =
     (if depthActive (session frame) \<noteq> None \<and> depthClientsInitialized s then
        (if fcard (depthClients s) = 0 then Done (gateSession (session frame) s)
         else ingestFrame frame (gateSession (session frame) s))
      else ingestFrame frame s)"

section \<open>The depth clients\<close>

definition resumeDepth :: "object \<Rightarrow> Depth \<Rightarrow> Depth" where
  "resumeDepth client s =
     s\<lparr>depthClientsInitialized := True, depthClients := finsert client (depthClients s)\<rparr>"

definition pauseDepth :: "object \<Rightarrow> Depth \<Rightarrow> Depth" where
  "pauseDepth client s =
     s\<lparr>depthClientsInitialized := True, depthClients := depthClients s |-| {|client|}\<rparr>"

section \<open>Reachable states\<close>

fun state_of :: "'a completion \<Rightarrow> 'a" where
  "state_of (Done s) = s"
| "state_of (Thrown e s) = s"

text \<open>
  The states the class can be in: after construction and \<^verbatim>\<open>init\<close>, after any call of
  a public method that writes the state, whether it returns or raises, and after
  the application has moved the camera or changed the renderer, which the class
  only holds references to.
\<close>

inductive reachable :: "Depth \<Rightarrow> bool" where
  reachable_init: "reachable (init cam opts rend conv)"
| reachable_resumeDepth: "reachable s \<Longrightarrow> reachable (resumeDepth client s)"
| reachable_pauseDepth: "reachable s \<Longrightarrow> reachable (pauseDepth client s)"
| reachable_updateLocalDepth:
    "reachable s \<Longrightarrow> reachable (state_of (updateLocalDepth frame s))"
| reachable_updateCPUDepthData:
    "reachable s \<Longrightarrow> reachable (state_of (updateCPUDepthData cpuData viewId s))"
| reachable_updateGPUDepthData:
    "reachable s \<Longrightarrow> reachable (state_of (updateGPUDepthData gpuData viewId s))"
| reachable_environment:
    "reachable s \<Longrightarrow> reachable (s\<lparr>camera := cam, renderer := rend\<rparr>)"

text \<open>The six per-view arrays grow together: they have one length.\<close>

definition consistent :: "Depth \<Rightarrow> bool" where
  "consistent s \<longleftrightarrow>
     length (depthProjectionMatrices s) = length (depthViewMatrices s) \<and>
     length (depthProjectionInverseMatrices s) = length (depthViewMatrices s) \<and>
     length (depthViewProjectionMatrices s) = length (depthViewMatrices s) \<and>
     length (depthCameraPositions s) = length (depthViewMatrices s) \<and>
     length (depthCameraRotations s) = length (depthViewMatrices s)"

section \<open>Definitions for the statements and the proofs\<close>

subsection \<open>What ingestion returns on a consistent state\<close>

text \<open>
  On a state whose six per-view arrays have one length, \<^verbatim>\<open>updateDepthMatrices\<close>
  returns the state \<open>updatedMatrices\<close>: the arrays grown by \<open>grow\<close> default entries,
  with the pose of \<open>poseSource\<close> (the session's, or the camera's) stored at the index
  of the view together with the inverse and the product computed from it.
\<close>

definition grow :: "nat \<Rightarrow> Depth \<Rightarrow> nat" where
  "grow viewId s = Suc viewId - length (depthViewMatrices s)"

definition poseSource ::
  "'a XRDepthInformation_scheme \<Rightarrow> nat \<Rightarrow> Depth \<Rightarrow> Matrix4 \<times> Matrix4 \<times> Vector3 \<times> Quaternion" where
  "poseSource depthData viewId s =
     (case XRDepthInformation.projectionMatrix depthData of
        None \<Rightarrow>
          (Camera.projectionMatrix (fallbackCamera viewId s),
           matrixWorldInverse (fallbackCamera viewId s),
           Camera.position (fallbackCamera viewId s),
           Camera.quaternion (fallbackCamera viewId s))
      | Some pm \<Rightarrow>
          (case transform depthData of
             None \<Rightarrow>
               (Camera.projectionMatrix (fallbackCamera viewId s),
                matrixWorldInverse (fallbackCamera viewId s),
                Camera.position (fallbackCamera viewId s),
                Camera.quaternion (fallbackCamera viewId s))
           | Some tr \<Rightarrow>
               (pm, inverse_matrix tr, XRRigidTransform.position tr, orientation tr)))"

definition storePose ::
  "nat \<Rightarrow> Matrix4 \<times> Matrix4 \<times> Vector3 \<times> Quaternion \<Rightarrow> Depth \<Rightarrow> Depth" where
  "storePose viewId src s =
     (case src of (pm, vm, p, q) \<Rightarrow>
        s\<lparr>depthProjectionMatrices := (depthProjectionMatrices s)[viewId := pm],
          depthViewMatrices := (depthViewMatrices s)[viewId := vm],
          depthCameraPositions := (depthCameraPositions s)[viewId := p],
          depthCameraRotations := (depthCameraRotations s)[viewId := q],
          depthProjectionInverseMatrices :=
            (depthProjectionInverseMatrices s)[viewId := invert pm],
          depthViewProjectionMatrices :=
            (depthViewProjectionMatrices s)[viewId := multiplyMatrices pm vm]\<rparr>)"

definition updatedMatrices :: "'a XRDepthInformation_scheme \<Rightarrow> nat \<Rightarrow> Depth \<Rightarrow> Depth" where
  "updatedMatrices d viewId s = storePose viewId (poseSource d viewId s) (populate viewId s)"

text \<open>
  The state in which \<^verbatim>\<open>updateCPUDepthData\<close> returns on such a state, and the
  completion of \<^verbatim>\<open>updateGPUDepthData\<close>, where only \<^verbatim>\<open>set\<close> on the existing
  depth array can raise; \<open>afterStore\<close> is the part of the GPU path after the depth
  array has been stored.
\<close>

definition cpuIngested :: "XRCPUDepthInformation \<Rightarrow> nat \<Rightarrow> Depth \<Rightarrow> Depth" where
  "cpuIngested d viewId s =
     (let s1 = (updatedMatrices d viewId s)
                 \<lparr>cpuDepthData := js_set (cpuDepthData s) viewId d,
                  depthArray := js_set (depthArray s) viewId (newDepthArray (data d) s),
                  width := XRDepthInformation.width d,
                  height := XRDepthInformation.height d\<rparr>;
          s2 = (if depthTexture_enabled (options s) \<and> depthTextures s \<noteq> None
                then logCall (DepthTextures_updateData viewId) s1 else s1)
      in case depthMesh s of
           None \<Rightarrow> s2
         | Some m \<Rightarrow>
             if depthMesh_enabled (options s) \<and> viewId = 0
             then (logCall DepthMesh_updateDepth s2)
                    \<lparr>depthMesh := Some (m\<lparr>DepthMesh.position := depthCameraPositions s1 ! 0,
                       DepthMesh.quaternion := depthCameraRotations s1 ! 0\<rparr>)\<rparr>
             else s2)"

definition afterStore :: "XRWebGLDepthInformation \<Rightarrow> nat \<Rightarrow> Depth \<Rightarrow> Depth \<Rightarrow> Depth" where
  "afterStore d viewId s s3 =
     (let s4 = (if depthTexture_enabled (options s) \<and> depthTextures s \<noteq> None
                then logCall (DepthTextures_updateNativeTexture viewId) s3 else s3)
      in case depthMesh s of
           None \<Rightarrow> s4
         | Some m \<Rightarrow>
             if depthMesh_enabled (options s) \<and> viewId = 0
             then (logCall (if cpuDepthOf d s \<noteq> None then DepthMesh_updateDepth
                        else DepthMesh_updateGPUDepth) s4)
                    \<lparr>depthMesh := Some (m\<lparr>DepthMesh.position := depthCameraPositions s3 ! 0,
                       DepthMesh.quaternion := depthCameraRotations s3 ! 0\<rparr>)\<rparr>
             else s4)"

definition gpuIngested :: "XRWebGLDepthInformation \<Rightarrow> nat \<Rightarrow> Depth \<Rightarrow> Depth completion" where
  "gpuIngested d viewId s =
     (let s1 = (updatedMatrices d viewId s)\<lparr>gpuDepthData := js_set (gpuDepthData s) viewId d\<rparr>;
          s2 = (if depthMesh_enabled (options s) \<and> depthMesh s \<noteq> None
                then logCall DepthMesh_convertGPUToGPU s1 else s1)
      in case storeCpuDepth (cpuDepthOf d s) viewId s2 of
           Thrown e s3 \<Rightarrow> Thrown e s3
         | Done s3 \<Rightarrow> Done (afterStore d viewId s s3))"

text \<open>The calls that the gate of \<^verbatim>\<open>updateLocalDepth\<close> makes on the session.\<close>

definition gateCalls :: "XRSession \<Rightarrow> Depth \<Rightarrow> call list" where
  "gateCalls sess s =
     (if depthActive sess = Some True \<and> depthClients s = {||} \<and> pauseDepthSensing sess
      then [Session_pauseDepthSensing]
      else if depthActive sess \<noteq> Some True \<and> depthClients s \<noteq> {||} \<and> resumeDepthSensing sess
      then [Session_resumeDepthSensing]
      else [])"

subsection \<open>The entries of a view and the abort of a frame\<close>

text \<open>
  What the class holds for the view \<open>j\<close>: its depth array, its four matrices and
  its camera pose, each absent when the array has no such index.
\<close>

definition entry ::
  "nat \<Rightarrow> Depth \<Rightarrow>
   DepthArray option \<times> Matrix4 option \<times> Matrix4 option \<times> Matrix4 option \<times> Matrix4 option
     \<times> Vector3 option \<times> Quaternion option" where
  "entry j s =
     (js_get (depthArray s) j,
      js_at (depthProjectionMatrices s) j,
      js_at (depthProjectionInverseMatrices s) j,
      js_at (depthViewMatrices s) j,
      js_at (depthViewProjectionMatrices s) j,
      js_at (depthCameraPositions s) j,
      js_at (depthCameraRotations s) j)"

text \<open>
  The two tests of the loop of \<^verbatim>\<open>updateLocalDepth\<close> that return from the method:
  the binding (GPU path) or the frame (CPU path) has no depth information for a
  view.
\<close>

definition depthInformationMissing :: "XRFrame \<Rightarrow> Depth \<Rightarrow> XRView \<Rightarrow> bool" where
  "depthInformationMissing frame s xrView =
     (if depthUsage (session frame) = ''gpu-optimized''
      then xr_getBinding_getDepthInformation (renderer s) xrView = None
      else getDepthInformation frame xrView = None)"

text \<open>A completion up to the stored views.\<close>

fun forgetView :: "Depth completion \<Rightarrow> Depth completion" where
  "forgetView (Done s) = Done (s\<lparr>view := []\<rparr>)"
| "forgetView (Thrown e s) = Thrown e (s\<lparr>view := []\<rparr>)"

text \<open>Every view that has a depth array has an index in the per-view arrays.\<close>

definition covered :: "Depth \<Rightarrow> bool" where
  "covered s \<longleftrightarrow>
     (\<forall>i < length (depthArray s). depthArray s ! i \<noteq> None \<longrightarrow> i < length (depthViewMatrices s))"

subsection \<open>Example values\<close>

text \<open>
  A camera three units in front of the origin with a perspective projection, a
  renderer with a reference space and no session cameras, and options with depth
  textures enabled and the depth mesh disabled.
\<close>

definition ex_camera :: Camera where
  "ex_camera =
     \<lparr> Camera.projectionMatrix = Matrix4 1 0 0 0  0 1 0 0  0 0 (- 1) (- 1)  0 0 (- 1) 0,
       matrixWorldInverse = Matrix4 1 0 0 0  0 1 0 0  0 0 1 0  0 0 (- 3) 1,
       Camera.position = Vector3 0 0 3,
       Camera.quaternion = Quaternion 0 0 0 1 \<rparr>"

definition ex_renderer :: WebGLRenderer where
  "ex_renderer =
     \<lparr> xr_getBinding_getDepthInformation = (\<lambda>xrView. None),
       xr_getReferenceSpace = Some XRReferenceSpace,
       xr_getCamera_cameras = [] \<rparr>"

definition ex_options :: DepthOptions where
  "ex_options =
     \<lparr> DepthOptions.enabled = True, depthTexture_enabled = True,
       depthMesh_enabled = False, occlusion_enabled = False, useFloat32 = False \<rparr>"

text \<open>
  A fresh instance, a CPU sample of width 4 and height 4 with all raw values 1000,
  and the state after the sample has been ingested for view 0.
\<close>

definition ex_depth :: Depth where
  "ex_depth = init ex_camera ex_options ex_renderer (\<lambda>depthData. None)"

definition ex_sample :: XRCPUDepthInformation where
  "ex_sample =
     \<lparr> XRDepthInformation.width = 4, XRDepthInformation.height = 4,
       XRDepthInformation.rawValueToMeters = 0.001,
       XRDepthInformation.projectionMatrix = None, transform = None,
       data = ArrayBuffer (replicate 16 1000) [] \<rparr>"

definition ex_ingested :: Depth where
  "ex_ingested = state_of (updateCPUDepthData ex_sample 0 ex_depth)"

text \<open>
  A frame of a session that can pause depth sensing, with two views, of which only
  view 0 has depth information.
\<close>

definition ex_session :: XRSession where
  "ex_session =
     \<lparr> depthActive = Some True, depthUsage = ''cpu-optimized'',
       pauseDepthSensing = True, resumeDepthSensing = True \<rparr>"

definition ex_frame :: XRFrame where
  "ex_frame =
     \<lparr> session = ex_session,
       getViewerPose = (\<lambda>xrRefSpace. Some [0, 1]),
       getDepthInformation = (\<lambda>xrView. if xrView = 0 then Some ex_sample else None) \<rparr>"

text \<open>
  A GPU depth information without a pose of its own, and a fresh instance with the
  depth mesh enabled, whose conversion yields the CPU sample.
\<close>

definition ex_gpu :: XRWebGLDepthInformation where
  "ex_gpu =
     \<lparr> XRDepthInformation.width = 4, XRDepthInformation.height = 4,
       XRDepthInformation.rawValueToMeters = 0.001,
       XRDepthInformation.projectionMatrix = None, transform = None,
       texture = 0 \<rparr>"

definition ex_mesh_depth :: Depth where
  "ex_mesh_depth =
     init ex_camera (ex_options\<lparr>depthMesh_enabled := True\<rparr>) ex_renderer
       (\<lambda>depthData. Some ex_sample)"


section \<open>Lemmas\<close>

lemma populate_closed:
  "populate viewId s =
     s\<lparr>depthViewMatrices := depthViewMatrices s @ replicate (grow viewId s) new_Matrix4,
       depthViewProjectionMatrices :=
         depthViewProjectionMatrices s @ replicate (grow viewId s) new_Matrix4,
       depthProjectionMatrices := depthProjectionMatrices s @ replicate (grow viewId s) new_Matrix4,
       depthProjectionInverseMatrices :=
         depthProjectionInverseMatrices s @ replicate (grow viewId s) new_Matrix4,
       depthCameraPositions := depthCameraPositions s @ replicate (grow viewId s) new_Vector3,
       depthCameraRotations := depthCameraRotations s @ replicate (grow viewId s) new_Quaternion\<rparr>"
proof (induction viewId s rule: populate.induct)
  case (1 viewId s)
  show ?case
  proof (cases "viewId \<ge> length (depthViewMatrices s)")
    case True
    then have g: "grow viewId s = Suc (viewId - length (depthViewMatrices s))"
      by (simp add: grow_def Suc_diff_le)
    have g': "grow viewId (s\<lparr>depthViewMatrices := depthViewMatrices s @ [new_Matrix4],
             depthViewProjectionMatrices := depthViewProjectionMatrices s @ [new_Matrix4],
             depthProjectionMatrices := depthProjectionMatrices s @ [new_Matrix4],
             depthProjectionInverseMatrices := depthProjectionInverseMatrices s @ [new_Matrix4],
             depthCameraPositions := depthCameraPositions s @ [new_Vector3],
             depthCameraRotations := depthCameraRotations s @ [new_Quaternion]\<rparr>)
          = viewId - length (depthViewMatrices s)"
      by (simp add: grow_def)
    show ?thesis
      by (subst populate.simps) (simp add: True "1.IH" [OF True] g g' replicate_append_same)
  next
    case False
    then have "grow viewId s = 0" by (simp add: grow_def)
    with False show ?thesis by (subst populate.simps) simp
  qed
qed

lemma grow_length: "viewId < length (depthViewMatrices s) + grow viewId s"
  by (simp add: grow_def)

lemma fallbackCamera_populate [simp]:
  "fallbackCamera viewId (populate k s) = fallbackCamera viewId s"
  by (simp add: populate_closed fallbackCamera_def split: option.splits)

lemma poseSource_populate [simp]:
  "poseSource d viewId (populate k s) = poseSource d viewId s"
  by (simp add: poseSource_def split: option.splits)

lemma consistent_populate: "consistent s \<Longrightarrow> consistent (populate viewId s)"
  by (simp add: consistent_def populate_closed)

lemma length_populate:
  "length (depthViewMatrices (populate viewId s)) = length (depthViewMatrices s) + grow viewId s"
  by (simp add: populate_closed)

lemma storePose_statements:
  assumes "consistent s" and "viewId < length (depthViewMatrices s)"
  shows "statements
           [set_depthProjectionMatrix viewId pm,
            set_depthViewMatrix viewId vm,
            set_depthCameraPosition viewId p,
            set_depthCameraRotation viewId q,
            set_depthProjectionInverseMatrix viewId,
            set_depthViewProjectionMatrix viewId] s
         = Done (storePose viewId (pm, vm, p, q) s)"
  using assms
  by (simp add: consistent_def storePose_def set_depthProjectionMatrix_def
      set_depthViewMatrix_def set_depthCameraPosition_def set_depthCameraRotation_def
      set_depthProjectionInverseMatrix_def set_depthViewProjectionMatrix_def
      write_at_def js_at_def)

lemma statements_append:
  "statements (fs @ gs) s =
     (case statements fs s of Done s' \<Rightarrow> statements gs s' | Thrown e s' \<Rightarrow> Thrown e s')"
  by (induction fs arbitrary: s) (auto split: completion.splits)

lemma updateDepthMatrices_Done:
  assumes "consistent s"
  shows "updateDepthMatrices d viewId s = Done (updatedMatrices d viewId s)"
proof -
  let ?s0 = "populate viewId s"
  have c: "consistent ?s0" using assms by (rule consistent_populate)
  have l: "viewId < length (depthViewMatrices ?s0)"
    by (simp add: length_populate grow_length)
  obtain pm vm p q where src: "poseSource d viewId s = (pm, vm, p, q)"
    by (cases "poseSource d viewId s") auto
  have four: "(case XRDepthInformation.projectionMatrix d of
             None \<Rightarrow> copyCameraPose viewId (fallbackCamera viewId ?s0) ?s0
           | Some pm \<Rightarrow>
               (case transform d of
                  None \<Rightarrow> copyCameraPose viewId (fallbackCamera viewId ?s0) ?s0
                | Some tr \<Rightarrow> copySessionPose viewId pm tr ?s0))
        = statements [set_depthProjectionMatrix viewId pm,
            set_depthViewMatrix viewId vm,
            set_depthCameraPosition viewId p,
            set_depthCameraRotation viewId q] ?s0"
    using src by (auto simp: poseSource_def copyCameraPose_def copySessionPose_def split: option.splits)
  have "updateDepthMatrices d viewId s =
          statements ([set_depthProjectionMatrix viewId pm,
            set_depthViewMatrix viewId vm,
            set_depthCameraPosition viewId p,
            set_depthCameraRotation viewId q] @ [set_depthProjectionInverseMatrix viewId,
            set_depthViewProjectionMatrix viewId]) ?s0"
    unfolding updateDepthMatrices_def statements_append [of "[_, _, _, _]"]
    by (simp add: four split: completion.splits)
  also have "\<dots> = Done (storePose viewId (pm, vm, p, q) ?s0)"
    using storePose_statements [OF c l] by simp
  finally show ?thesis by (simp add: src updatedMatrices_def)
qed

lemma updatedMatrices_consistent:
  "consistent s \<Longrightarrow> consistent (updatedMatrices d viewId s)"
  by (cases "poseSource d viewId s")
     (simp add: updatedMatrices_def storePose_def populate_closed consistent_def)

lemma updatedMatrices_length:
  "length (depthViewMatrices (updatedMatrices d viewId s))
     = length (depthViewMatrices s) + grow viewId s"
  by (cases "poseSource d viewId s")
     (simp add: updatedMatrices_def storePose_def populate_closed)

lemma updatedMatrices_fields [simp]:
  "camera (updatedMatrices d viewId s) = camera s"
  "renderer (updatedMatrices d viewId s) = renderer s"
  "enabled (updatedMatrices d viewId s) = enabled s"
  "view (updatedMatrices d viewId s) = view s"
  "cpuDepthData (updatedMatrices d viewId s) = cpuDepthData s"
  "gpuDepthData (updatedMatrices d viewId s) = gpuDepthData s"
  "depthArray (updatedMatrices d viewId s) = depthArray s"
  "depthMesh (updatedMatrices d viewId s) = depthMesh s"
  "depthTextures (updatedMatrices d viewId s) = depthTextures s"
  "options (updatedMatrices d viewId s) = options s"
  "width (updatedMatrices d viewId s) = width s"
  "height (updatedMatrices d viewId s) = height s"
  "occlusionPass (updatedMatrices d viewId s) = occlusionPass s"
  "depthClientsInitialized (updatedMatrices d viewId s) = depthClientsInitialized s"
  "depthClients (updatedMatrices d viewId s) = depthClients s"
  "calls (updatedMatrices d viewId s) = calls s"
  by (cases "poseSource d viewId s"; simp add: updatedMatrices_def storePose_def populate_closed)+

lemma js_at_grow:
  assumes "viewId < j" and "length xs = l"
  shows "js_at ((xs @ replicate (Suc viewId - l) x)[viewId := y]) j = js_at xs j"
proof (cases "j < length xs")
  case True
  with assms show ?thesis by (simp add: js_at_def nth_append)
next
  case False
  with assms show ?thesis by (simp add: js_at_def)
qed

lemma updatedMatrices_above:
  assumes "consistent s" and "viewId < j"
  shows "js_at (depthProjectionMatrices (updatedMatrices d viewId s)) j
           = js_at (depthProjectionMatrices s) j"
    and "js_at (depthProjectionInverseMatrices (updatedMatrices d viewId s)) j
           = js_at (depthProjectionInverseMatrices s) j"
    and "js_at (depthViewMatrices (updatedMatrices d viewId s)) j
           = js_at (depthViewMatrices s) j"
    and "js_at (depthViewProjectionMatrices (updatedMatrices d viewId s)) j
           = js_at (depthViewProjectionMatrices s) j"
    and "js_at (depthCameraPositions (updatedMatrices d viewId s)) j
           = js_at (depthCameraPositions s) j"
    and "js_at (depthCameraRotations (updatedMatrices d viewId s)) j
           = js_at (depthCameraRotations s) j"
proof -
  obtain pm vm p q where src: "poseSource d viewId s = (pm, vm, p, q)"
    by (cases "poseSource d viewId s") auto
  have l: "length (depthProjectionMatrices s) = length (depthViewMatrices s)"
    "length (depthProjectionInverseMatrices s) = length (depthViewMatrices s)"
    "length (depthViewProjectionMatrices s) = length (depthViewMatrices s)"
    "length (depthCameraPositions s) = length (depthViewMatrices s)"
    "length (depthCameraRotations s) = length (depthViewMatrices s)"
    using assms(1) by (simp_all add: consistent_def)
  note g = js_at_grow [OF assms(2)]
  show "js_at (depthProjectionMatrices (updatedMatrices d viewId s)) j
           = js_at (depthProjectionMatrices s) j"
    by (simp add: updatedMatrices_def storePose_def populate_closed src grow_def g [OF l(1)])
  show "js_at (depthProjectionInverseMatrices (updatedMatrices d viewId s)) j
           = js_at (depthProjectionInverseMatrices s) j"
    by (simp add: updatedMatrices_def storePose_def populate_closed src grow_def g [OF l(2)])
  show "js_at (depthViewMatrices (updatedMatrices d viewId s)) j
           = js_at (depthViewMatrices s) j"
    by (simp add: updatedMatrices_def storePose_def populate_closed src grow_def g [OF refl])
  show "js_at (depthViewProjectionMatrices (updatedMatrices d viewId s)) j
           = js_at (depthViewProjectionMatrices s) j"
    by (simp add: updatedMatrices_def storePose_def populate_closed src grow_def g [OF l(3)])
  show "js_at (depthCameraPositions (updatedMatrices d viewId s)) j
           = js_at (depthCameraPositions s) j"
    by (simp add: updatedMatrices_def storePose_def populate_closed src grow_def g [OF l(4)])
  show "js_at (depthCameraRotations (updatedMatrices d viewId s)) j
           = js_at (depthCameraRotations s) j"
    by (simp add: updatedMatrices_def storePose_def populate_closed src grow_def g [OF l(5)])
qed


lemma fallbackCamera_update [simp]:
  "fallbackCamera viewId (s\<lparr>cpuDepthData := a\<rparr>) = fallbackCamera viewId s"
  "fallbackCamera viewId (s\<lparr>gpuDepthData := b\<rparr>) = fallbackCamera viewId s"
  by (simp_all add: fallbackCamera_def split: option.splits)

lemma poseSource_update [simp]:
  "poseSource d viewId (s\<lparr>cpuDepthData := a\<rparr>) = poseSource d viewId s"
  "poseSource d viewId (s\<lparr>gpuDepthData := b\<rparr>) = poseSource d viewId s"
  by (simp_all add: poseSource_def split: option.splits)

lemma updatedMatrices_update:
  "updatedMatrices d viewId (s\<lparr>cpuDepthData := a\<rparr>) = (updatedMatrices d viewId s)\<lparr>cpuDepthData := a\<rparr>"
  "updatedMatrices d viewId (s\<lparr>gpuDepthData := b\<rparr>) = (updatedMatrices d viewId s)\<lparr>gpuDepthData := b\<rparr>"
  by (cases "poseSource d viewId s"; simp add: updatedMatrices_def storePose_def populate_closed grow_def)+

lemma updatedMatrices_lengths:
  assumes "consistent s"
  shows "viewId < length (depthProjectionMatrices (updatedMatrices d viewId s))"
    and "viewId < length (depthProjectionInverseMatrices (updatedMatrices d viewId s))"
    and "viewId < length (depthViewMatrices (updatedMatrices d viewId s))"
    and "viewId < length (depthViewProjectionMatrices (updatedMatrices d viewId s))"
    and "viewId < length (depthCameraPositions (updatedMatrices d viewId s))"
    and "viewId < length (depthCameraRotations (updatedMatrices d viewId s))"
proof -
  have v: "viewId < length (depthViewMatrices (updatedMatrices d viewId s))"
    by (simp add: updatedMatrices_length grow_length)
  with updatedMatrices_consistent [OF assms, of d viewId]
  show "viewId < length (depthProjectionMatrices (updatedMatrices d viewId s))"
    and "viewId < length (depthProjectionInverseMatrices (updatedMatrices d viewId s))"
    and "viewId < length (depthViewMatrices (updatedMatrices d viewId s))"
    and "viewId < length (depthViewProjectionMatrices (updatedMatrices d viewId s))"
    and "viewId < length (depthCameraPositions (updatedMatrices d viewId s))"
    and "viewId < length (depthCameraRotations (updatedMatrices d viewId s))"
    by (simp_all add: consistent_def)
qed

lemma consistent_fields [simp]:
  "consistent (s\<lparr>cpuDepthData := a\<rparr>) = consistent s"
  "consistent (s\<lparr>gpuDepthData := b\<rparr>) = consistent s"
  "consistent (s\<lparr>view := c\<rparr>) = consistent s"
  "consistent (s\<lparr>calls := d\<rparr>) = consistent s"
  "consistent (s\<lparr>depthArray := e\<rparr>) = consistent s"
  "consistent (s\<lparr>width := f\<rparr>) = consistent s"
  "consistent (s\<lparr>height := g\<rparr>) = consistent s"
  "consistent (s\<lparr>depthMesh := h\<rparr>) = consistent s"
  "consistent (s\<lparr>camera := i\<rparr>) = consistent s"
  "consistent (s\<lparr>renderer := j\<rparr>) = consistent s"
  "consistent (s\<lparr>depthClients := k\<rparr>) = consistent s"
  "consistent (s\<lparr>depthClientsInitialized := l\<rparr>) = consistent s"
  by (simp_all add: consistent_def)

lemma consistent_log [simp]: "consistent (logCall c s) = consistent s"
  by (simp add: logCall_def)

lemma newDepthArray_options:
  "options s' = options s \<Longrightarrow> newDepthArray buf s' = newDepthArray buf s"
  by (simp add: newDepthArray_def)

lemma log_fields [simp]:
  "camera (logCall c s) = camera s" "renderer (logCall c s) = renderer s"
  "enabled (logCall c s) = enabled s" "view (logCall c s) = view s"
  "cpuDepthData (logCall c s) = cpuDepthData s" "gpuDepthData (logCall c s) = gpuDepthData s"
  "depthArray (logCall c s) = depthArray s" "depthMesh (logCall c s) = depthMesh s"
  "depthTextures (logCall c s) = depthTextures s" "options (logCall c s) = options s"
  "width (logCall c s) = width s" "height (logCall c s) = height s"
  "occlusionPass (logCall c s) = occlusionPass s"
  "depthClientsInitialized (logCall c s) = depthClientsInitialized s"
  "depthClients (logCall c s) = depthClients s" "calls (logCall c s) = calls s @ [c]"
  "depthProjectionMatrices (logCall c s) = depthProjectionMatrices s"
  "depthProjectionInverseMatrices (logCall c s) = depthProjectionInverseMatrices s"
  "depthViewMatrices (logCall c s) = depthViewMatrices s"
  "depthViewProjectionMatrices (logCall c s) = depthViewProjectionMatrices s"
  "depthCameraPositions (logCall c s) = depthCameraPositions s"
  "depthCameraRotations (logCall c s) = depthCameraRotations s"
  by (simp_all add: logCall_def)

lemma completion_case_id [simp]:
  "(case c of Done x \<Rightarrow> statements [] x | Thrown e x \<Rightarrow> Thrown e x) = c"
  by (cases c) simp_all

lemma updateCPUDepthData_Done:
  assumes "consistent s"
  shows "updateCPUDepthData d viewId s = Done (cpuIngested d viewId s)"
proof -
  define s1 where "s1 = (updatedMatrices d viewId s)\<lparr>cpuDepthData := js_set (cpuDepthData s) viewId d\<rparr>"
  define s2 where "s2 = s1\<lparr>depthArray := js_set (depthArray s1) viewId (newDepthArray (data d) s1),
                      width := XRDepthInformation.width d,
                      height := XRDepthInformation.height d\<rparr>"
  define s3 where "s3 = (if depthTexture_enabled (options s2) \<and> depthTextures s2 \<noteq> None
                    then logCall (DepthTextures_updateData viewId) s2 else s2)"
  define f5 where "f5 = (\<lambda>s. if depthMesh_enabled (options s) \<and> depthMesh s \<noteq> None \<and> viewId = 0
              then moveDepthMesh (logCall DepthMesh_updateDepth s)
              else Done s)"
  have 1: "updateDepthMatrices d viewId (s\<lparr>cpuDepthData := js_set (cpuDepthData s) viewId d\<rparr>)
           = Done s1"
    using assms by (simp add: updateDepthMatrices_Done updatedMatrices_update s1_def)
  have run: "updateCPUDepthData d viewId s = f5 s3"
    unfolding updateCPUDepthData_def f5_def [symmetric]
    by (simp add: 1 s2_def [symmetric]) (auto simp add: s3_def)
  have opts: "options s3 = options s" "depthMesh s3 = depthMesh s"
    "depthTextures s2 = depthTextures s" "options s2 = options s"
    by (simp_all add: s3_def s2_def s1_def)
  have n: "newDepthArray (data d) s1 = newDepthArray (data d) s"
    by (rule newDepthArray_options) (simp add: s1_def)
  have s2_eq: "s2 = (updatedMatrices d viewId s)
                 \<lparr>cpuDepthData := js_set (cpuDepthData s) viewId d,
                  depthArray := js_set (depthArray s) viewId (newDepthArray (data d) s),
                  width := XRDepthInformation.width d,
                  height := XRDepthInformation.height d\<rparr>"
    unfolding s2_def n by (simp add: s1_def)
  have pos: "depthCameraPositions s3 = depthCameraPositions (updatedMatrices d viewId s)"
    "depthCameraRotations s3 = depthCameraRotations (updatedMatrices d viewId s)"
    by (simp_all add: s3_def s2_def s1_def)
  show ?thesis
  proof (cases "depthMesh s")
    case None
    then have "f5 s3 = Done s3" by (simp add: f5_def opts)
    moreover have "cpuIngested d viewId s = s3"
      using None by (simp add: cpuIngested_def Let_def s3_def opts s2_eq [symmetric])
    ultimately show ?thesis using run by simp
  next
    case (Some m)
    show ?thesis
    proof (cases "depthMesh_enabled (options s) \<and> viewId = 0")
      case False
      then have "f5 s3 = Done s3" by (auto simp add: f5_def opts)
      moreover have "cpuIngested d viewId s = s3"
        using Some False by (auto simp add: cpuIngested_def Let_def s3_def opts s2_eq [symmetric])
      ultimately show ?thesis using run by simp
    next
      case True
      then have v: "viewId = 0" by simp
      have ne: "depthCameraPositions s3 \<noteq> []" "depthCameraRotations s3 \<noteq> []"
        using updatedMatrices_lengths(5,6) [OF assms, of 0 d] by (auto simp add: pos v)
      have "f5 s3 = moveDepthMesh (logCall DepthMesh_updateDepth s3)"
        using True Some by (simp add: f5_def opts)
      also have "\<dots> = Done ((logCall DepthMesh_updateDepth s3)
                    \<lparr>depthMesh := Some (m\<lparr>DepthMesh.position := depthCameraPositions s3 ! 0,
                       DepthMesh.quaternion := depthCameraRotations s3 ! 0\<rparr>)\<rparr>)"
        using ne Some by (simp add: moveDepthMesh_def js_at_def opts)
      finally have "f5 s3 = Done ((logCall DepthMesh_updateDepth s3)
                    \<lparr>depthMesh := Some (m\<lparr>DepthMesh.position := depthCameraPositions s3 ! 0,
                       DepthMesh.quaternion := depthCameraRotations s3 ! 0\<rparr>)\<rparr>)" .
      moreover have "cpuIngested d viewId s = (logCall DepthMesh_updateDepth s3)
                    \<lparr>depthMesh := Some (m\<lparr>DepthMesh.position := depthCameraPositions s3 ! 0,
                       DepthMesh.quaternion := depthCameraRotations s3 ! 0\<rparr>)\<rparr>"
        using Some True
        by (simp add: cpuIngested_def Let_def s3_def opts s2_eq)
      ultimately show ?thesis using run by simp
    qed
  qed
qed

lemma storeCpuDepth_fields:
  assumes "storeCpuDepth c viewId s = r"
  shows "options (state_of r) = options s" "depthMesh (state_of r) = depthMesh s"
    "depthTextures (state_of r) = depthTextures s"
    "depthCameraPositions (state_of r) = depthCameraPositions s"
    "depthCameraRotations (state_of r) = depthCameraRotations s"
    "depthProjectionMatrices (state_of r) = depthProjectionMatrices s"
    "depthProjectionInverseMatrices (state_of r) = depthProjectionInverseMatrices s"
    "depthViewMatrices (state_of r) = depthViewMatrices s"
    "depthViewProjectionMatrices (state_of r) = depthViewProjectionMatrices s"
    "renderer (state_of r) = renderer s" "camera (state_of r) = camera s"
    "calls (state_of r) = calls s" "view (state_of r) = view s"
    "cpuDepthData (state_of r) = cpuDepthData s" "gpuDepthData (state_of r) = gpuDepthData s"
    "depthClients (state_of r) = depthClients s"
    "depthClientsInitialized (state_of r) = depthClientsInitialized s"
    "enabled (state_of r) = enabled s" "occlusionPass (state_of r) = occlusionPass s"
  using assms [symmetric]
  by (simp_all add: storeCpuDepth_def split: option.splits sum.splits)

lemma cpuDepthOf_cong:
  "options s' = options s \<Longrightarrow> depthMesh s' = depthMesh s \<Longrightarrow> cpuDepthOf d s' = cpuDepthOf d s"
  by (simp add: cpuDepthOf_def)

lemma cpuDepthOf_log [simp]: "cpuDepthOf d (logCall c s) = cpuDepthOf d s"
  by (simp add: cpuDepthOf_def)

lemma updateGPUDepthData_closed:
  assumes "consistent s"
  shows "updateGPUDepthData d viewId s = gpuIngested d viewId s"
proof -
  define s1 where "s1 = (updatedMatrices d viewId s)\<lparr>gpuDepthData := js_set (gpuDepthData s) viewId d\<rparr>"
  define s2 where "s2 = (if depthMesh_enabled (options s1) \<and> depthMesh s1 \<noteq> None
                    then logCall DepthMesh_convertGPUToGPU s1 else s1)"
  define rest where "rest =
       [(\<lambda>s. Done (if depthTexture_enabled (options s) \<and> depthTextures s \<noteq> None
                    then logCall (DepthTextures_updateNativeTexture viewId) s else s)),
        (\<lambda>s. if depthMesh_enabled (options s) \<and> depthMesh s \<noteq> None \<and> viewId = 0
              then moveDepthMesh
                     (logCall (if cpuDepthOf d s \<noteq> None then DepthMesh_updateDepth
                           else DepthMesh_updateGPUDepth) s)
              else Done s)]"
  have 1: "updateDepthMatrices d viewId (s\<lparr>gpuDepthData := js_set (gpuDepthData s) viewId d\<rparr>)
           = Done s1"
    using assms by (simp add: updateDepthMatrices_Done updatedMatrices_update s1_def)
  have o2: "options s2 = options s" "depthMesh s2 = depthMesh s" "depthTextures s2 = depthTextures s"
    by (simp_all add: s2_def s1_def)
  have c2: "cpuDepthOf d s2 = cpuDepthOf d s"
    by (rule cpuDepthOf_cong) (simp_all add: o2)
  have s2_eq: "s2 = (if depthMesh_enabled (options s) \<and> depthMesh s \<noteq> None
                then logCall DepthMesh_convertGPUToGPU s1 else s1)"
    by (simp add: s2_def s1_def)
  have run: "updateGPUDepthData d viewId s =
      (case storeCpuDepth (cpuDepthOf d s) viewId s2 of
         Done s3 \<Rightarrow> statements rest s3
       | Thrown e s3 \<Rightarrow> Thrown e s3)"
  proof (cases "depthMesh_enabled (options s) \<and> depthMesh s \<noteq> None")
    case True
    then have s2: "s2 = logCall DepthMesh_convertGPUToGPU s1" by (simp add: s2_eq)
    have o1: "depthMesh_enabled (options s1) \<and> depthMesh s1 \<noteq> None"
      using True by (simp add: s1_def)
    show ?thesis
      unfolding updateGPUDepthData_def rest_def [symmetric]
      using o1 c2 by (simp add: 1 s2)
  next
    case False
    then have s2: "s2 = s1" by (simp add: s2_eq)
    have o1: "\<not> (depthMesh_enabled (options s1) \<and> depthMesh s1 \<noteq> None)"
      using False by (simp add: s1_def)
    show ?thesis
      unfolding updateGPUDepthData_def rest_def [symmetric]
      using o1 c2 by (auto simp add: 1 s2)
  qed
  have tail: "statements rest s3 = Done (afterStore d viewId s s3)"
    if st: "storeCpuDepth (cpuDepthOf d s) viewId s2 = Done s3" for s3
  proof -
    note f = storeCpuDepth_fields [OF st, simplified]
    have o3: "options s3 = options s" "depthMesh s3 = depthMesh s" "depthTextures s3 = depthTextures s"
      using f by (simp_all add: o2)
    have l3: "depthCameraPositions s3 = depthCameraPositions (updatedMatrices d viewId s)"
      "depthCameraRotations s3 = depthCameraRotations (updatedMatrices d viewId s)"
      using f by (simp_all add: s2_eq s1_def)
    define s4 where "s4 = (if depthTexture_enabled (options s) \<and> depthTextures s \<noteq> None
                then logCall (DepthTextures_updateNativeTexture viewId) s3 else s3)"
    have o4: "options s4 = options s" "depthMesh s4 = depthMesh s"
      "depthCameraPositions s4 = depthCameraPositions s3"
      "depthCameraRotations s4 = depthCameraRotations s3"
      by (simp_all add: s4_def o3)
    have c4: "cpuDepthOf d s4 = cpuDepthOf d s"
      by (rule cpuDepthOf_cong) (simp_all add: o4)
    have c3: "cpuDepthOf d s3 = cpuDepthOf d s"
      by (rule cpuDepthOf_cong) (simp_all add: o3)
    have r: "statements rest s3 =
        (if depthMesh_enabled (options s) \<and> depthMesh s \<noteq> None \<and> viewId = 0
              then moveDepthMesh
                     (logCall (if cpuDepthOf d s \<noteq> None then DepthMesh_updateDepth
                           else DepthMesh_updateGPUDepth) s4)
              else Done s4)"
    proof (cases "depthTexture_enabled (options s) \<and> depthTextures s \<noteq> None")
      case True
      then have e: "s4 = logCall (DepthTextures_updateNativeTexture viewId) s3" by (simp add: s4_def)
      show ?thesis
        unfolding e using True by (auto simp add: rest_def o3 c3 cpuDepthOf_log)
    next
      case False
      then have e: "s4 = s3" by (simp add: s4_def)
      show ?thesis
        unfolding e using False by (auto simp add: rest_def o3 c3)
    qed
    show ?thesis
    proof (cases "depthMesh s")
      case None
      then show ?thesis by (simp add: r afterStore_def Let_def s4_def)
    next
      case (Some m)
      show ?thesis
      proof (cases "depthMesh_enabled (options s) \<and> viewId = 0")
        case False
        then show ?thesis using Some by (auto simp add: r afterStore_def Let_def s4_def)
      next
        case True
        then have v: "viewId = 0" by simp
        have ne: "depthCameraPositions s4 \<noteq> []" "depthCameraRotations s4 \<noteq> []"
          using updatedMatrices_lengths(5,6) [OF assms, of 0 d] by (auto simp add: o4 l3 v)
        show ?thesis
          using True Some ne
          by (simp add: r afterStore_def Let_def moveDepthMesh_def js_at_def o4) (simp add: s4_def)
      qed
    qed
  qed
  show ?thesis
    unfolding run gpuIngested_def Let_def s1_def [symmetric] s2_eq [symmetric]
    by (auto split: completion.splits simp: tail)
qed

lemma js_get_js_set: "js_get (js_set xs i v) j = (if j = i then Some v else js_get xs j)"
  by (auto simp: js_get_def js_set_def nth_append)

lemma afterStore_fields [simp]:
  "camera (afterStore d viewId s s3) = camera s3"
  "renderer (afterStore d viewId s s3) = renderer s3"
  "enabled (afterStore d viewId s s3) = enabled s3"
  "view (afterStore d viewId s s3) = view s3"
  "cpuDepthData (afterStore d viewId s s3) = cpuDepthData s3"
  "gpuDepthData (afterStore d viewId s s3) = gpuDepthData s3"
  "depthArray (afterStore d viewId s s3) = depthArray s3"
  "depthTextures (afterStore d viewId s s3) = depthTextures s3"
  "options (afterStore d viewId s s3) = options s3"
  "width (afterStore d viewId s s3) = width s3"
  "height (afterStore d viewId s s3) = height s3"
  "occlusionPass (afterStore d viewId s s3) = occlusionPass s3"
  "depthClientsInitialized (afterStore d viewId s s3) = depthClientsInitialized s3"
  "depthClients (afterStore d viewId s s3) = depthClients s3"
  "depthProjectionMatrices (afterStore d viewId s s3) = depthProjectionMatrices s3"
  "depthProjectionInverseMatrices (afterStore d viewId s s3) = depthProjectionInverseMatrices s3"
  "depthViewMatrices (afterStore d viewId s s3) = depthViewMatrices s3"
  "depthViewProjectionMatrices (afterStore d viewId s s3) = depthViewProjectionMatrices s3"
  "depthCameraPositions (afterStore d viewId s s3) = depthCameraPositions s3"
  "depthCameraRotations (afterStore d viewId s s3) = depthCameraRotations s3"
  by (simp_all add: afterStore_def Let_def split: option.splits)

lemma cpuIngested_fields [simp]:
  "camera (cpuIngested d viewId s) = camera s"
  "renderer (cpuIngested d viewId s) = renderer s"
  "enabled (cpuIngested d viewId s) = enabled s"
  "view (cpuIngested d viewId s) = view s"
  "cpuDepthData (cpuIngested d viewId s) = js_set (cpuDepthData s) viewId d"
  "gpuDepthData (cpuIngested d viewId s) = gpuDepthData s"
  "depthArray (cpuIngested d viewId s) = js_set (depthArray s) viewId (newDepthArray (data d) s)"
  "depthTextures (cpuIngested d viewId s) = depthTextures s"
  "options (cpuIngested d viewId s) = options s"
  "width (cpuIngested d viewId s) = XRDepthInformation.width d"
  "height (cpuIngested d viewId s) = XRDepthInformation.height d"
  "occlusionPass (cpuIngested d viewId s) = occlusionPass s"
  "depthClientsInitialized (cpuIngested d viewId s) = depthClientsInitialized s"
  "depthClients (cpuIngested d viewId s) = depthClients s"
  "depthProjectionMatrices (cpuIngested d viewId s) = depthProjectionMatrices (updatedMatrices d viewId s)"
  "depthProjectionInverseMatrices (cpuIngested d viewId s) = depthProjectionInverseMatrices (updatedMatrices d viewId s)"
  "depthViewMatrices (cpuIngested d viewId s) = depthViewMatrices (updatedMatrices d viewId s)"
  "depthViewProjectionMatrices (cpuIngested d viewId s) = depthViewProjectionMatrices (updatedMatrices d viewId s)"
  "depthCameraPositions (cpuIngested d viewId s) = depthCameraPositions (updatedMatrices d viewId s)"
  "depthCameraRotations (cpuIngested d viewId s) = depthCameraRotations (updatedMatrices d viewId s)"
  by (simp_all add: cpuIngested_def Let_def split: option.splits)

lemma gpuIngested_fields [simp]:
  "camera (state_of (gpuIngested d viewId s)) = camera s"
  "renderer (state_of (gpuIngested d viewId s)) = renderer s"
  "enabled (state_of (gpuIngested d viewId s)) = enabled s"
  "view (state_of (gpuIngested d viewId s)) = view s"
  "cpuDepthData (state_of (gpuIngested d viewId s)) = cpuDepthData s"
  "gpuDepthData (state_of (gpuIngested d viewId s)) = js_set (gpuDepthData s) viewId d"
  "depthTextures (state_of (gpuIngested d viewId s)) = depthTextures s"
  "options (state_of (gpuIngested d viewId s)) = options s"
  "occlusionPass (state_of (gpuIngested d viewId s)) = occlusionPass s"
  "depthClientsInitialized (state_of (gpuIngested d viewId s)) = depthClientsInitialized s"
  "depthClients (state_of (gpuIngested d viewId s)) = depthClients s"
  "depthProjectionMatrices (state_of (gpuIngested d viewId s)) = depthProjectionMatrices (updatedMatrices d viewId s)"
  "depthProjectionInverseMatrices (state_of (gpuIngested d viewId s)) = depthProjectionInverseMatrices (updatedMatrices d viewId s)"
  "depthViewMatrices (state_of (gpuIngested d viewId s)) = depthViewMatrices (updatedMatrices d viewId s)"
  "depthViewProjectionMatrices (state_of (gpuIngested d viewId s)) = depthViewProjectionMatrices (updatedMatrices d viewId s)"
  "depthCameraPositions (state_of (gpuIngested d viewId s)) = depthCameraPositions (updatedMatrices d viewId s)"
  "depthCameraRotations (state_of (gpuIngested d viewId s)) = depthCameraRotations (updatedMatrices d viewId s)"
  by (simp_all add: gpuIngested_def Let_def storeCpuDepth_def split: option.splits sum.splits)

lemma gpuIngested_depthArray:
  "js_get (depthArray (state_of (gpuIngested d viewId s))) j =
     (if j = viewId then
        (case cpuDepthOf d s of
           None \<Rightarrow> js_get (depthArray s) viewId
         | Some c \<Rightarrow>
             (case js_get (depthArray s) viewId of
                None \<Rightarrow> Some (newDepthArray (data c) s)
              | Some arr \<Rightarrow>
                  (case typed_set arr (newDepthArray (data c) s) of
                     Inl e \<Rightarrow> Some arr
                   | Inr arr' \<Rightarrow> Some arr')))
      else js_get (depthArray s) j)"
  by (simp add: gpuIngested_def Let_def storeCpuDepth_def js_get_js_set newDepthArray_def
      split: option.splits sum.splits)

lemma covered_iff:
  "covered s \<longleftrightarrow> (\<forall>i. js_get (depthArray s) i \<noteq> None \<longrightarrow> i < length (depthViewMatrices s))"
  by (auto simp: covered_def js_get_def)

lemma entry_view [simp]: "entry j (s\<lparr>view := x\<rparr>) = entry j s"
  by (simp add: entry_def)

lemma consistent_cpuIngested:
  "consistent s \<Longrightarrow> consistent (cpuIngested d viewId s)"
  using updatedMatrices_consistent [of s d viewId] by (simp add: consistent_def)

lemma consistent_gpuIngested:
  "consistent s \<Longrightarrow> consistent (state_of (gpuIngested d viewId s))"
  using updatedMatrices_consistent [of s d viewId] by (simp add: consistent_def)

lemma entry_cpuIngested:
  assumes "consistent s" and "viewId < j"
  shows "entry j (cpuIngested d viewId s) = entry j s"
  using assms by (simp add: entry_def updatedMatrices_above js_get_js_set)

lemma entry_gpuIngested:
  assumes "consistent s" and "viewId < j"
  shows "entry j (state_of (gpuIngested d viewId s)) = entry j s"
  using assms by (simp add: entry_def updatedMatrices_above gpuIngested_depthArray)

lemma updatedMatrices_mono:
  "length (depthViewMatrices s) \<le> length (depthViewMatrices (updatedMatrices d viewId s))"
  by (simp add: updatedMatrices_length)

lemma covered_cpuIngested:
  assumes "consistent s" and "covered s"
  shows "covered (cpuIngested d viewId s)"
  unfolding covered_iff
proof (intro allI impI)
  fix i assume "js_get (depthArray (cpuIngested d viewId s)) i \<noteq> None"
  then have "i = viewId \<or> js_get (depthArray s) i \<noteq> None"
    by (simp add: js_get_js_set split: if_splits)
  then show "i < length (depthViewMatrices (cpuIngested d viewId s))"
    using updatedMatrices_lengths(3) [OF assms(1), of viewId d] assms(2)
      updatedMatrices_mono [of s d viewId]
    by (auto simp: covered_iff)
qed

lemma covered_gpuIngested:
  assumes "consistent s" and "covered s"
  shows "covered (state_of (gpuIngested d viewId s))"
  unfolding covered_iff
proof (intro allI impI)
  fix i assume "js_get (depthArray (state_of (gpuIngested d viewId s))) i \<noteq> None"
  then have "i = viewId \<or> js_get (depthArray s) i \<noteq> None"
    by (simp add: gpuIngested_depthArray split: if_splits)
  then show "i < length (depthViewMatrices (state_of (gpuIngested d viewId s)))"
    using updatedMatrices_lengths(3) [OF assms(1), of viewId d] assms(2)
      updatedMatrices_mono [of s d viewId]
    by (auto simp: covered_iff)
qed

lemma covered_view [simp]: "covered (s\<lparr>view := x\<rparr>) = covered s"
  by (simp add: covered_def)

lemma ingestViews_Cons:
  assumes "consistent s"
  shows "ingestViews frame (xrView # rest) viewId s =
     (if depthUsage (session frame) = ''gpu-optimized'' then
        (case xr_getBinding_getDepthInformation (renderer s) xrView of
           None \<Rightarrow> Done (s\<lparr>view := js_set (view s) viewId xrView\<rparr>)
         | Some depthData \<Rightarrow>
             (case gpuIngested depthData viewId (s\<lparr>view := js_set (view s) viewId xrView\<rparr>) of
                Thrown e s' \<Rightarrow> Thrown e s'
              | Done s' \<Rightarrow> ingestViews frame rest (Suc viewId) s'))
      else
        (case getDepthInformation frame xrView of
           None \<Rightarrow> Done (s\<lparr>view := js_set (view s) viewId xrView\<rparr>)
         | Some depthData \<Rightarrow>
             ingestViews frame rest (Suc viewId)
               (cpuIngested depthData viewId (s\<lparr>view := js_set (view s) viewId xrView\<rparr>))))"
  using assms
  by (simp add: updateGPUDepthData_closed updateCPUDepthData_Done split: option.splits)

lemma ingestViews_invariant:
  assumes "consistent s"
  shows "consistent (state_of (ingestViews frame views viewId s))
       \<and> renderer (state_of (ingestViews frame views viewId s)) = renderer s
       \<and> (covered s \<longrightarrow> covered (state_of (ingestViews frame views viewId s)))"
  using assms
proof (induction views arbitrary: viewId s)
  case Nil
  then show ?case by simp
next
  case (Cons xrView rest)
  let ?s1 = "s\<lparr>view := js_set (view s) viewId xrView\<rparr>"
  have c1: "consistent ?s1" using Cons.prems by simp
  show ?case
  proof (cases "depthUsage (session frame) = ''gpu-optimized''")
    case True
    show ?thesis
    proof (cases "xr_getBinding_getDepthInformation (renderer s) xrView")
      case None
      with True Cons.prems show ?thesis by (simp add: ingestViews_Cons del: ingestViews.simps(2))
    next
      case (Some d)
      show ?thesis
      proof (cases "gpuIngested d viewId ?s1")
        case (Thrown e s')
        then have s': "s' = state_of (gpuIngested d viewId ?s1)" by simp
        have "consistent s'" "renderer s' = renderer s" "covered s \<longrightarrow> covered s'"
          unfolding s'
          using consistent_gpuIngested [OF c1] covered_gpuIngested [OF c1] by simp_all
        with True Some Thrown Cons.prems show ?thesis by (simp add: ingestViews_Cons del: ingestViews.simps(2))
      next
        case (Done s')
        then have s': "s' = state_of (gpuIngested d viewId ?s1)" by simp
        have *: "consistent s'" "renderer s' = renderer s" "covered s \<longrightarrow> covered s'"
          unfolding s'
          using consistent_gpuIngested [OF c1] covered_gpuIngested [OF c1] by simp_all
        from Cons.IH [OF *(1), of "Suc viewId"] * True Some Done Cons.prems
        show ?thesis by (simp add: ingestViews_Cons del: ingestViews.simps(2))
      qed
    qed
  next
    case False
    show ?thesis
    proof (cases "getDepthInformation frame xrView")
      case None
      with False Cons.prems show ?thesis by (simp add: ingestViews_Cons del: ingestViews.simps(2))
    next
      case (Some d)
      have *: "consistent (cpuIngested d viewId ?s1)"
        "renderer (cpuIngested d viewId ?s1) = renderer s"
        "covered s \<longrightarrow> covered (cpuIngested d viewId ?s1)"
        using consistent_cpuIngested [OF c1] covered_cpuIngested [OF c1] by simp_all
      from Cons.IH [OF *(1), of "Suc viewId"] * False Some Cons.prems
      show ?thesis by (simp add: ingestViews_Cons del: ingestViews.simps(2))
    qed
  qed
qed

lemma depthInformationMissing_renderer:
  "renderer s' = renderer s \<Longrightarrow>
   depthInformationMissing frame s' xrView = depthInformationMissing frame s xrView"
  by (simp add: depthInformationMissing_def)

lemma ingestViews_missing_head:
  assumes "depthInformationMissing frame s xrView"
  shows "ingestViews frame (xrView # rest) viewId s = Done (s\<lparr>view := js_set (view s) viewId xrView\<rparr>)"
  using assms by (simp add: depthInformationMissing_def split: if_splits)

lemma ingestViews_present_head:
  assumes "consistent s" and "\<not> depthInformationMissing frame s xrView"
  obtains (thrown) e s' where
      "ingestViews frame (xrView # rest) viewId s = Thrown e s'"
      "consistent s'" "renderer s' = renderer s"
      "\<And>j. viewId < j \<Longrightarrow> entry j s' = entry j s"
      "\<And>views. ingestViews frame (xrView # views) viewId s = Thrown e s'"
    | (continues) s' where
      "ingestViews frame (xrView # rest) viewId s = ingestViews frame rest (Suc viewId) s'"
      "consistent s'" "renderer s' = renderer s"
      "\<And>j. viewId < j \<Longrightarrow> entry j s' = entry j s"
      "\<And>views. ingestViews frame (xrView # views) viewId s = ingestViews frame views (Suc viewId) s'"
proof -
  let ?s1 = "s\<lparr>view := js_set (view s) viewId xrView\<rparr>"
  have c1: "consistent ?s1" using assms(1) by simp
  show thesis
  proof (cases "depthUsage (session frame) = ''gpu-optimized''")
    case True
    then obtain d where d: "xr_getBinding_getDepthInformation (renderer s) xrView = Some d"
      using assms(2) by (auto simp: depthInformationMissing_def)
    show thesis
    proof (cases "gpuIngested d viewId ?s1")
      case (Done s')
      then have s': "s' = state_of (gpuIngested d viewId ?s1)" by simp
      show thesis
      proof (rule continues [of s'])
        show "ingestViews frame (xrView # rest) viewId s = ingestViews frame rest (Suc viewId) s'"
          using True d Done assms(1) by (simp add: ingestViews_Cons del: ingestViews.simps(2))
        show "consistent s'" unfolding s' by (rule consistent_gpuIngested [OF c1])
        show "renderer s' = renderer s" unfolding s' by simp
        show "entry j s' = entry j s" if "viewId < j" for j
          unfolding s' using entry_gpuIngested [OF c1 that] by simp
        show "ingestViews frame (xrView # views) viewId s = ingestViews frame views (Suc viewId) s'"
          for views
          using True d Done assms(1) by (simp add: ingestViews_Cons del: ingestViews.simps(2))
      qed
    next
      case (Thrown e s')
      then have s': "s' = state_of (gpuIngested d viewId ?s1)" by simp
      show thesis
      proof (rule thrown [of e s'])
        show "ingestViews frame (xrView # rest) viewId s = Thrown e s'"
          using True d Thrown assms(1) by (simp add: ingestViews_Cons del: ingestViews.simps(2))
        show "consistent s'" unfolding s' by (rule consistent_gpuIngested [OF c1])
        show "renderer s' = renderer s" unfolding s' by simp
        show "entry j s' = entry j s" if "viewId < j" for j
          unfolding s' using entry_gpuIngested [OF c1 that] by simp
        show "ingestViews frame (xrView # views) viewId s = Thrown e s'" for views
          using True d Thrown assms(1) by (simp add: ingestViews_Cons del: ingestViews.simps(2))
      qed
    qed
  next
    case False
    then obtain d where d: "getDepthInformation frame xrView = Some d"
      using assms(2) by (auto simp: depthInformationMissing_def)
    show thesis
    proof (rule continues [of "cpuIngested d viewId ?s1"])
      show "ingestViews frame (xrView # rest) viewId s
              = ingestViews frame rest (Suc viewId) (cpuIngested d viewId ?s1)"
        using False d assms(1) by (simp add: ingestViews_Cons del: ingestViews.simps(2))
      show "consistent (cpuIngested d viewId ?s1)" by (rule consistent_cpuIngested [OF c1])
      show "renderer (cpuIngested d viewId ?s1) = renderer s" by simp
      show "entry j (cpuIngested d viewId ?s1) = entry j s" if "viewId < j" for j
        using entry_cpuIngested [OF c1 that] by simp
      show "ingestViews frame (xrView # views) viewId s
              = ingestViews frame views (Suc viewId) (cpuIngested d viewId ?s1)" for views
        using False d assms(1) by (simp add: ingestViews_Cons del: ingestViews.simps(2))
    qed
  qed
qed

lemma ingestViews_abort_entries:
  assumes "consistent s" and "k < length views"
    and "depthInformationMissing frame s (views ! k)" and "viewId + k \<le> j"
  shows "entry j (state_of (ingestViews frame views viewId s)) = entry j s"
  using assms
proof (induction views arbitrary: viewId s k)
  case Nil
  then show ?case by simp
next
  case (Cons xrView rest)
  show ?case
  proof (cases "depthInformationMissing frame s xrView")
    case True
    then show ?thesis by (simp add: ingestViews_missing_head del: ingestViews.simps(2))
  next
    case False
    then obtain k' where k: "k = Suc k'"
      using Cons.prems(3) by (cases k) auto
    from Cons.prems(1) False show ?thesis
    proof (cases rule: ingestViews_present_head [where rest = rest and viewId = viewId])
      case (thrown e s')
      then show ?thesis using Cons.prems(4) k by simp
    next
      case (continues s')
      have "entry j (state_of (ingestViews frame rest (Suc viewId) s')) = entry j s'"
      proof (rule Cons.IH [of s' k'])
        show "consistent s'" by (rule continues(2))
        show "k' < length rest" using Cons.prems(2) k by simp
        show "depthInformationMissing frame s' (rest ! k')"
          using Cons.prems(3) k depthInformationMissing_renderer [OF continues(3)] by simp
        show "Suc viewId + k' \<le> j" using Cons.prems(4) k by simp
      qed
      then show ?thesis using continues(1) continues(4) [of j] Cons.prems(4) k by simp
    qed
  qed
qed

lemma ingestViews_abort_prefix:
  assumes "consistent s" and "k < length views"
    and "depthInformationMissing frame s (views ! k)"
  shows "forgetView (ingestViews frame views viewId s)
           = forgetView (ingestViews frame (take k views) viewId s)"
  using assms
proof (induction views arbitrary: viewId s k)
  case Nil
  then show ?case by simp
next
  case (Cons xrView rest)
  show ?case
  proof (cases k)
    case 0
    then have "depthInformationMissing frame s xrView" using Cons.prems(3) by simp
    then show ?thesis using 0 by (simp add: ingestViews_missing_head del: ingestViews.simps(2))
  next
    case (Suc k')
    show ?thesis
    proof (cases "depthInformationMissing frame s xrView")
      case True
      then show ?thesis using Suc by (simp add: ingestViews_missing_head del: ingestViews.simps(2))
    next
      case False
      from Cons.prems(1) False show ?thesis
      proof (cases rule: ingestViews_present_head [where rest = rest and viewId = viewId])
        case (thrown e s')
        then show ?thesis using Suc by (simp del: ingestViews.simps(2))
      next
        case (continues s')
        have "forgetView (ingestViews frame rest (Suc viewId) s')
                = forgetView (ingestViews frame (take k' rest) (Suc viewId) s')"
        proof (rule Cons.IH)
          show "consistent s'" by (rule continues(2))
          show "k' < length rest" using Cons.prems(2) Suc by simp
          show "depthInformationMissing frame s' (rest ! k')"
            using Cons.prems(3) Suc depthInformationMissing_renderer [OF continues(3)] by simp
        qed
        then show ?thesis using continues(5) Suc by (simp del: ingestViews.simps(2))
      qed
    qed
  qed
qed

lemma fcard_pos: "0 < fcard A \<longleftrightarrow> A \<noteq> {||}"
proof -
  have "0 < fcard A \<longleftrightarrow> \<not> fcard A = 0" by (rule neq0_conv [symmetric])
  then show ?thesis by (simp only: fcard_0_eq)
qed

lemma log_nothing: "s\<lparr>calls := calls s @ []\<rparr> = s"
  by simp

lemma gateSession_calls: "gateSession sess s = s\<lparr>calls := calls s @ gateCalls sess s\<rparr>"
proof (cases "depthClients s = {||}")
  case True
  then show ?thesis by (simp add: gateSession_def gateCalls_def fcard_pos logCall_def)
next
  case False
  then show ?thesis by (simp add: gateSession_def gateCalls_def fcard_pos logCall_def)
qed

lemma gateSession_fields [simp]:
  "consistent (gateSession sess s) = consistent s"
  "covered (gateSession sess s) = covered s"
  "renderer (gateSession sess s) = renderer s"
  "entry j (gateSession sess s) = entry j s"
  "view (gateSession sess s) = view s"
  by (simp_all add: gateSession_calls covered_def entry_def)

lemma covered_log [simp]: "covered (logCall c s) = covered s"
  by (simp add: covered_def)

lemma ingestFrame_invariant:
  assumes "consistent s"
  shows "consistent (state_of (ingestFrame frame s))
       \<and> renderer (state_of (ingestFrame frame s)) = renderer s
       \<and> (covered s \<longrightarrow> covered (state_of (ingestFrame frame s)))"
proof (cases "xr_getReferenceSpace (renderer s)")
  case None
  then show ?thesis using assms by (simp add: ingestFrame_def)
next
  case (Some rs)
  show ?thesis
  proof (cases "getViewerPose frame rs")
    case None
    then show ?thesis using assms Some by (simp add: ingestFrame_def)
  next
    case (Some views)
    then have "ingestFrame frame s = ingestViews frame views 0 s"
      using \<open>xr_getReferenceSpace (renderer s) = Some rs\<close> by (simp add: ingestFrame_def)
    then show ?thesis using ingestViews_invariant [OF assms, of frame views 0] by simp
  qed
qed

lemma updateLocalDepth_invariant:
  assumes "consistent s"
  shows "consistent (state_of (updateLocalDepth frame s))
       \<and> renderer (state_of (updateLocalDepth frame s)) = renderer s
       \<and> (covered s \<longrightarrow> covered (state_of (updateLocalDepth frame s)))"
proof -
  let ?g = "gateSession (session frame) s"
  have g: "consistent ?g" using assms by simp
  show ?thesis
  proof (cases "depthActive (session frame) \<noteq> None \<and> depthClientsInitialized s")
    case False
    then have "updateLocalDepth frame s = ingestFrame frame s"
      unfolding updateLocalDepth_def using False by auto
    then show ?thesis using ingestFrame_invariant [OF assms, of frame] by simp
  next
    case True
    show ?thesis
    proof (cases "fcard (depthClients s) = 0")
      case e: True
      have "updateLocalDepth frame s = Done ?g"
        unfolding updateLocalDepth_def using True e by simp
      then show ?thesis using assms by simp
    next
      case e: False
      have "updateLocalDepth frame s = ingestFrame frame ?g"
        unfolding updateLocalDepth_def using True e by simp
      then show ?thesis using ingestFrame_invariant [OF g, of frame] by simp
    qed
  qed
qed

lemma init_invariant: "consistent (init cam opts rend conv) \<and> covered (init cam opts rend conv)"
  by (simp add: consistent_def covered_def init_def)

lemma reachable_invariant: "reachable s \<Longrightarrow> consistent s \<and> covered s"
proof (induction rule: reachable.induct)
  case (reachable_init cam opts rend conv)
  show ?case by (rule init_invariant)
next
  case (reachable_resumeDepth s client)
  then show ?case by (simp add: resumeDepth_def covered_def)
next
  case (reachable_pauseDepth s client)
  then show ?case by (simp add: pauseDepth_def covered_def)
next
  case (reachable_updateLocalDepth s frame)
  then show ?case using updateLocalDepth_invariant [of s frame] by simp
next
  case (reachable_updateCPUDepthData s cpuData viewId)
  then have c: "consistent s" and v: "covered s" by simp_all
  show ?case
    unfolding updateCPUDepthData_Done [OF c]
    using consistent_cpuIngested [OF c] covered_cpuIngested [OF c v] by simp
next
  case (reachable_updateGPUDepthData s gpuData viewId)
  then have c: "consistent s" and v: "covered s" by simp_all
  show ?case
    unfolding updateGPUDepthData_closed [OF c]
    using consistent_gpuIngested [OF c] covered_gpuIngested [OF c v] by simp
next
  case (reachable_environment s cam rend)
  then show ?case by (simp add: covered_def)
qed

lemma ingestViews_pose:
  "ingestViews (frame\<lparr>getViewerPose := p\<rparr>) views viewId s = ingestViews frame views viewId s"
  by (induction views arbitrary: viewId s) (simp_all split: option.splits completion.splits)

lemma depthInformationMissing_gate [simp]:
  "depthInformationMissing frame (gateSession sess s) xrView
     = depthInformationMissing frame s xrView"
  by (simp add: depthInformationMissing_def)

lemma entry_log [simp]: "entry j (logCall c s) = entry j s"
  by (simp add: entry_def)

lemma ingestFrame_abort:
  assumes "consistent s"
    and "xr_getReferenceSpace (renderer s) = Some xrRefSpace"
    and "getViewerPose frame xrRefSpace = Some views"
    and "k < length views"
    and "depthInformationMissing frame s (views ! k)"
  shows "k \<le> j \<Longrightarrow> entry j (state_of (ingestFrame frame s)) = entry j s"
    and "forgetView (ingestFrame frame s)
           = forgetView (ingestFrame (frame\<lparr>getViewerPose := \<lambda>r. Some (take k views)\<rparr>) s)"
proof -
  have run: "ingestFrame frame s = ingestViews frame views 0 s"
    using assms(2,3) by (simp add: ingestFrame_def)
  have run': "ingestFrame (frame\<lparr>getViewerPose := \<lambda>r. Some (take k views)\<rparr>) s
               = ingestViews frame (take k views) 0 s"
    using assms(2) by (simp add: ingestFrame_def ingestViews_pose)
  show "entry j (state_of (ingestFrame frame s)) = entry j s" if "k \<le> j"
    unfolding run using ingestViews_abort_entries [OF assms(1,4,5), of 0 j] that by simp
  show "forgetView (ingestFrame frame s)
           = forgetView (ingestFrame (frame\<lparr>getViewerPose := \<lambda>r. Some (take k views)\<rparr>) s)"
    unfolding run run' by (rule ingestViews_abort_prefix [OF assms(1,4,5)])
qed

lemma updateLocalDepth_cases:
  obtains (early) "updateLocalDepth frame s = Done (gateSession (session frame) s)"
      "\<And>p. updateLocalDepth (frame\<lparr>getViewerPose := p\<rparr>) s = Done (gateSession (session frame) s)"
    | (gated) "updateLocalDepth frame s = ingestFrame frame (gateSession (session frame) s)"
      "\<And>p. updateLocalDepth (frame\<lparr>getViewerPose := p\<rparr>) s
             = ingestFrame (frame\<lparr>getViewerPose := p\<rparr>) (gateSession (session frame) s)"
    | (plain) "updateLocalDepth frame s = ingestFrame frame s"
      "\<And>p. updateLocalDepth (frame\<lparr>getViewerPose := p\<rparr>) s
             = ingestFrame (frame\<lparr>getViewerPose := p\<rparr>) s"
proof (cases "depthActive (session frame) \<noteq> None \<and> depthClientsInitialized s")
  case False
  then have "updateLocalDepth frame s = ingestFrame frame s"
    "\<And>p. updateLocalDepth (frame\<lparr>getViewerPose := p\<rparr>) s
             = ingestFrame (frame\<lparr>getViewerPose := p\<rparr>) s"
    unfolding updateLocalDepth_def by auto
  then show ?thesis by (rule plain)
next
  case True
  show ?thesis
  proof (cases "fcard (depthClients s) = 0")
    case e: True
    have "updateLocalDepth frame s = Done (gateSession (session frame) s)"
      "\<And>p. updateLocalDepth (frame\<lparr>getViewerPose := p\<rparr>) s = Done (gateSession (session frame) s)"
      unfolding updateLocalDepth_def using True e by simp_all
    then show ?thesis by (rule early)
  next
    case e: False
    have "updateLocalDepth frame s = ingestFrame frame (gateSession (session frame) s)"
      "\<And>p. updateLocalDepth (frame\<lparr>getViewerPose := p\<rparr>) s
             = ingestFrame (frame\<lparr>getViewerPose := p\<rparr>) (gateSession (session frame) s)"
      unfolding updateLocalDepth_def using True e by simp_all
    then show ?thesis by (rule gated)
  qed
qed

lemma updateLocalDepth_abort:
  assumes "consistent s"
    and "xr_getReferenceSpace (renderer s) = Some xrRefSpace"
    and "getViewerPose frame xrRefSpace = Some views"
    and "k < length views"
    and "depthInformationMissing frame s (views ! k)"
  shows "k \<le> j \<Longrightarrow> entry j (state_of (updateLocalDepth frame s)) = entry j s"
    and "forgetView (updateLocalDepth frame s)
           = forgetView (updateLocalDepth (frame\<lparr>getViewerPose := \<lambda>r. Some (take k views)\<rparr>) s)"
proof -
  let ?g = "gateSession (session frame) s"
  have g: "consistent ?g" "xr_getReferenceSpace (renderer ?g) = Some xrRefSpace"
    "depthInformationMissing frame ?g (views ! k)"
    using assms by simp_all
  note a = ingestFrame_abort [OF assms]
  note b = ingestFrame_abort [OF g(1,2) assms(3,4) g(3)]
  show "entry j (state_of (updateLocalDepth frame s)) = entry j s" if "k \<le> j"
  proof (cases rule: updateLocalDepth_cases [of frame s])
    case early
    then show ?thesis by simp
  next
    case gated
    then show ?thesis using b(1) [OF that] by simp
  next
    case plain
    then show ?thesis using a(1) [OF that] by simp
  qed
  show "forgetView (updateLocalDepth frame s)
           = forgetView (updateLocalDepth (frame\<lparr>getViewerPose := \<lambda>r. Some (take k views)\<rparr>) s)"
  proof (cases rule: updateLocalDepth_cases [of frame s])
    case early
    then show ?thesis by simp
  next
    case gated
    then show ?thesis using b(2) by simp
  next
    case plain
    then show ?thesis using a(2) by simp
  qed
qed

section \<open>Facts about the example values and further lemmas\<close>

lemma ex_depth_consistent: "consistent ex_depth"
  by (simp add: ex_depth_def init_invariant)

lemma ex_depth_reachable: "reachable ex_depth"
  unfolding ex_depth_def by (rule reachable_init)

lemma ex_mesh_depth_reachable: "reachable ex_mesh_depth"
  unfolding ex_mesh_depth_def by (rule reachable_init)

lemma ex_ingested_eq: "ex_ingested = cpuIngested ex_sample 0 ex_depth"
  by (simp add: ex_ingested_def updateCPUDepthData_Done [OF ex_depth_consistent])

lemma ex_depth_fields:
  "width ex_depth = 160" "height ex_depth = 160" "depthArray ex_depth = []"
  "cpuDepthData ex_depth = []" "gpuDepthData ex_depth = []" "options ex_depth = ex_options"
  "depthViewMatrices ex_depth = []" "depthClients ex_depth = {||}"
  "depthClientsInitialized ex_depth = False" "renderer ex_depth = ex_renderer"
  "camera ex_depth = ex_camera" "depthMesh ex_depth = None"
  "depthTextures ex_depth = Some DepthTextures" "calls ex_depth = []" "view ex_depth = []"
  "depthProjectionMatrices ex_depth = []" "depthProjectionInverseMatrices ex_depth = []"
  "depthViewProjectionMatrices ex_depth = []" "depthCameraPositions ex_depth = []"
  "depthCameraRotations ex_depth = []"
  by (simp_all add: ex_depth_def init_def DEFAULT_DEPTH_WIDTH_def DEFAULT_DEPTH_HEIGHT_def
      ex_options_def)

lemma ex_ingested_fields:
  "width ex_ingested = 4" "height ex_ingested = 4"
  "depthArray ex_ingested = [Some (replicate 16 1000)]"
  "cpuDepthData ex_ingested = [Some ex_sample]"
  by (simp_all add: ex_ingested_eq ex_depth_fields js_set_def ex_sample_def newDepthArray_def
      new_Uint16Array_def ex_options_def)






lemma ex_updateLocalDepth:
  "updateLocalDepth ex_frame ex_depth
     = Done ((cpuIngested ex_sample 0 (ex_depth\<lparr>view := [Some 0]\<rparr>))\<lparr>view := [Some 0, Some 1]\<rparr>)"
proof -
  have c: "consistent (ex_depth\<lparr>view := [Some 0]\<rparr>)"
    using ex_depth_consistent by simp
  have "updateLocalDepth ex_frame ex_depth = ingestViews ex_frame [0, 1] 0 ex_depth"
    by (simp add: updateLocalDepth_def ex_depth_fields ingestFrame_def ex_renderer_def
        ex_frame_def)
  also have "\<dots> = ingestViews ex_frame [1] 1 (cpuIngested ex_sample 0 (ex_depth\<lparr>view := [Some 0]\<rparr>))"
    by (simp add: ingestViews_Cons [OF ex_depth_consistent] ex_frame_def ex_session_def
        ex_depth_fields js_set_def del: ingestViews.simps(2))
  also have "\<dots> = Done ((cpuIngested ex_sample 0 (ex_depth\<lparr>view := [Some 0]\<rparr>))
                        \<lparr>view := [Some 0, Some 1]\<rparr>)"
    by (simp add: ingestViews_Cons [OF consistent_cpuIngested [OF c]] ex_frame_def ex_session_def
        js_set_def del: ingestViews.simps(2))
  finally show ?thesis .
qed

lemma afterStore_calls:
  "\<exists>rest. calls (afterStore d viewId s s3) = calls s3 @ rest
     \<and> DepthMesh_convertGPUToGPU \<notin> set rest
     \<and> (\<not> (depthMesh_enabled (options s) \<and> depthMesh s \<noteq> None) \<longrightarrow>
          rest = (if depthTexture_enabled (options s) \<and> depthTextures s \<noteq> None
                  then [DepthTextures_updateNativeTexture viewId] else []))"
  by (cases "depthMesh s") (auto simp: afterStore_def Let_def)

lemma storeCpuDepth_None [simp]: "storeCpuDepth None viewId s = Done s"
  by (simp add: storeCpuDepth_def)

lemma cpuDepthOf_no_mesh:
  "\<not> (depthMesh_enabled (options s) \<and> depthMesh s \<noteq> None) \<Longrightarrow> cpuDepthOf d s = None"
  by (auto simp: cpuDepthOf_def)

lemma gpuIngested_no_mesh:
  assumes "\<not> (depthMesh_enabled (options s) \<and> depthMesh s \<noteq> None)"
  shows "gpuIngested d viewId s =
           Done (afterStore d viewId s
             ((updatedMatrices d viewId s)\<lparr>gpuDepthData := js_set (gpuDepthData s) viewId d\<rparr>))"
  using assms cpuDepthOf_no_mesh [OF assms, of d]
  by (auto simp: gpuIngested_def Let_def)

lemma gpuIngested_calls:
  "\<exists>rest. calls (state_of (gpuIngested d viewId s)) =
       calls s @ (if depthMesh_enabled (options s) \<and> depthMesh s \<noteq> None
                  then [DepthMesh_convertGPUToGPU] else []) @ rest
     \<and> DepthMesh_convertGPUToGPU \<notin> set rest"
proof -
  define s2 where "s2 = (if depthMesh_enabled (options s) \<and> depthMesh s \<noteq> None
      then logCall DepthMesh_convertGPUToGPU
             ((updatedMatrices d viewId s)\<lparr>gpuDepthData := js_set (gpuDepthData s) viewId d\<rparr>)
      else (updatedMatrices d viewId s)\<lparr>gpuDepthData := js_set (gpuDepthData s) viewId d\<rparr>)"
  have c2: "calls s2 = calls s @ (if depthMesh_enabled (options s) \<and> depthMesh s \<noteq> None
                  then [DepthMesh_convertGPUToGPU] else [])"
    by (simp add: s2_def)
  have g: "gpuIngested d viewId s =
      (case storeCpuDepth (cpuDepthOf d s) viewId s2 of
           Thrown e s3 \<Rightarrow> Thrown e s3
         | Done s3 \<Rightarrow> Done (afterStore d viewId s s3))"
    by (simp add: gpuIngested_def Let_def s2_def)
  show ?thesis
  proof (cases "storeCpuDepth (cpuDepthOf d s) viewId s2")
    case (Thrown e s3)
    then have "calls s3 = calls s2" using storeCpuDepth_fields(12) [OF Thrown] by simp
    then show ?thesis using Thrown by (simp add: g c2)
  next
    case (Done s3)
    then have c3: "calls s3 = calls s2" using storeCpuDepth_fields(12) [OF Done] by simp
    from afterStore_calls [of d viewId s s3] obtain rest where
      "calls (afterStore d viewId s s3) = calls s3 @ rest" "DepthMesh_convertGPUToGPU \<notin> set rest"
      by blast
    then show ?thesis using Done by (simp add: g c2 c3)
  qed
qed

lemma ex_mesh_depth_consistent: "consistent ex_mesh_depth"
  unfolding ex_mesh_depth_def by (rule init_invariant [THEN conjunct1])

lemma ex_mesh_depth_fields:
  "calls ex_mesh_depth = []" "depthArray ex_mesh_depth = []"
  "depthMesh_enabled (options ex_mesh_depth)" "depthMesh ex_mesh_depth \<noteq> None"
  "cpuDepthOf ex_gpu ex_mesh_depth = Some ex_sample"
  "newDepthArray (data ex_sample) ex_mesh_depth = replicate 16 1000"
  by (simp_all add: ex_mesh_depth_def init_def ex_options_def cpuDepthOf_def
      newDepthArray_def new_Uint16Array_def ex_sample_def)






section \<open>The claims\<close>

subsection \<open>C1: the value of getDepth\<close>



subsection \<open>C2: the composed matrices\<close>




subsection \<open>C3: the gate of updateLocalDepth\<close>

text \<open>
  C3. When the session defines \<open>depthActive\<close>, a \<open>resumeDepth\<close> or \<open>pauseDepth\<close> call
  has occurred and the client set is empty, \<open>updateLocalDepth\<close> returns with every
  field of the class as it was: the depth arrays, the per-view matrix and pose
  arrays and the stored views are not written. The only effect is the call of
  \<open>pauseDepthSensing\<close> on an active session that has this method.
\<close>

theorem updateLocalDepth_gated:
  assumes "depthActive (session frame) \<noteq> None"
    and "depthClientsInitialized s"
    and "depthClients s = {||}"
  shows "\<exists>s'. updateLocalDepth frame s = Done s'
           \<and> s'\<lparr>calls := calls s\<rparr> = s
           \<and> calls s' = calls s @
                (if depthActive (session frame) = Some True \<and> pauseDepthSensing (session frame)
                 then [Session_pauseDepthSensing] else [])
           \<and> depthArray s' = depthArray s \<and> view s' = view s
           \<and> cpuDepthData s' = cpuDepthData s \<and> gpuDepthData s' = gpuDepthData s
           \<and> depthProjectionMatrices s' = depthProjectionMatrices s
           \<and> depthProjectionInverseMatrices s' = depthProjectionInverseMatrices s
           \<and> depthViewMatrices s' = depthViewMatrices s
           \<and> depthViewProjectionMatrices s' = depthViewProjectionMatrices s
           \<and> depthCameraPositions s' = depthCameraPositions s
           \<and> depthCameraRotations s' = depthCameraRotations s"
proof -
  have "updateLocalDepth frame s = Done (gateSession (session frame) s)"
    using assms by (simp add: updateLocalDepth_def)
  moreover have "gateCalls (session frame) s =
      (if depthActive (session frame) = Some True \<and> pauseDepthSensing (session frame)
       then [Session_pauseDepthSensing] else [])"
    using assms(3) by (simp add: gateCalls_def)
  ultimately show ?thesis
    by (simp add: gateSession_calls)
qed

theorem updateLocalDepth_gated_witness:
  "depthActive (session ex_frame) \<noteq> None
   \<and> depthClientsInitialized (pauseDepth 7 ex_ingested)
   \<and> depthClients (pauseDepth 7 ex_ingested) = {||}
   \<and> updateLocalDepth ex_frame (pauseDepth 7 ex_ingested)
       = Done ((pauseDepth 7 ex_ingested)
                 \<lparr>calls := calls (pauseDepth 7 ex_ingested) @ [Session_pauseDepthSensing]\<rparr>)
   \<and> depthArray (state_of (updateLocalDepth ex_frame (pauseDepth 7 ex_ingested)))
       = [Some (replicate 16 1000)]"
proof -
  let ?s = "pauseDepth 7 ex_ingested"
  have a: "depthActive (session ex_frame) \<noteq> None"
    by (simp add: ex_frame_def ex_session_def)
  have b: "depthClientsInitialized ?s" by (simp add: pauseDepth_def)
  have c: "depthClients ?s = {||}"
    by (simp add: pauseDepth_def ex_ingested_eq ex_depth_fields)
  have p: "depthActive (session ex_frame) = Some True \<and> pauseDepthSensing (session ex_frame)"
    by (simp add: ex_frame_def ex_session_def)
  from updateLocalDepth_gated [OF a b c] obtain s' where
    r: "updateLocalDepth ex_frame ?s = Done s'"
    and e: "s'\<lparr>calls := calls ?s\<rparr> = ?s"
    and l: "calls s' = calls ?s @ [Session_pauseDepthSensing]"
    and d: "depthArray s' = depthArray ?s"
    using p by auto
  have "s' = (s'\<lparr>calls := calls ?s\<rparr>)\<lparr>calls := calls s'\<rparr>" by simp
  then have "s' = ?s\<lparr>calls := calls ?s @ [Session_pauseDepthSensing]\<rparr>"
    unfolding e l .
  moreover have "depthArray ?s = [Some (replicate 16 1000)]"
    by (simp add: pauseDepth_def ex_ingested_fields)
  ultimately show ?thesis using a b c r d by simp
qed

subsection \<open>C4: a missing view aborts the frame\<close>

text \<open>
  C4. In a reachable state, let \<open>updateLocalDepth\<close> process the views of a pose and let the depth
  information of view \<open>k\<close> be missing. Then for every view \<open>j\<close> from \<open>k\<close> on, the depth
  array and the matrices and poses of view \<open>j\<close> are after the call what they were
  before it; and the call ends, returning or raising, in the state in which a call
  with only the views before \<open>k\<close> ends, up to the stored views: what the views before
  \<open>k\<close> committed is kept.
\<close>

theorem updateLocalDepth_aborts_at_missing_view:
  assumes "reachable s"
    and "xr_getReferenceSpace (renderer s) = Some xrRefSpace"
    and "getViewerPose frame xrRefSpace = Some views"
    and "k < length views"
    and "depthInformationMissing frame s (views ! k)"
    and "k \<le> j"
  shows "js_get (depthArray (state_of (updateLocalDepth frame s))) j = js_get (depthArray s) j
       \<and> js_at (depthProjectionMatrices (state_of (updateLocalDepth frame s))) j
           = js_at (depthProjectionMatrices s) j
       \<and> js_at (depthProjectionInverseMatrices (state_of (updateLocalDepth frame s))) j
           = js_at (depthProjectionInverseMatrices s) j
       \<and> js_at (depthViewMatrices (state_of (updateLocalDepth frame s))) j
           = js_at (depthViewMatrices s) j
       \<and> js_at (depthViewProjectionMatrices (state_of (updateLocalDepth frame s))) j
           = js_at (depthViewProjectionMatrices s) j
       \<and> js_at (depthCameraPositions (state_of (updateLocalDepth frame s))) j
           = js_at (depthCameraPositions s) j
       \<and> js_at (depthCameraRotations (state_of (updateLocalDepth frame s))) j
           = js_at (depthCameraRotations s) j
       \<and> forgetView (updateLocalDepth frame s)
           = forgetView (updateLocalDepth (frame\<lparr>getViewerPose := \<lambda>r. Some (take k views)\<rparr>) s)"
proof -
  from reachable_invariant [OF assms(1)] have c: "consistent s" by simp
  have "entry j (state_of (updateLocalDepth frame s)) = entry j s"
    by (rule updateLocalDepth_abort(1) [OF c assms(2-6)])
  moreover have "forgetView (updateLocalDepth frame s)
           = forgetView (updateLocalDepth (frame\<lparr>getViewerPose := \<lambda>r. Some (take k views)\<rparr>) s)"
    by (rule updateLocalDepth_abort(2) [OF c assms(2-5)])
  ultimately show ?thesis by (simp add: entry_def)
qed

theorem updateLocalDepth_aborts_at_missing_view_witness:
  "reachable ex_depth
   \<and> xr_getReferenceSpace (renderer ex_depth) = Some XRReferenceSpace
   \<and> getViewerPose ex_frame XRReferenceSpace = Some [0, 1]
   \<and> 1 < length [0 :: nat, 1]
   \<and> depthInformationMissing ex_frame ex_depth ([0, 1] ! 1)
   \<and> js_get (depthArray (state_of (updateLocalDepth ex_frame ex_depth))) 1 = None
   \<and> js_at (depthViewMatrices (state_of (updateLocalDepth ex_frame ex_depth))) 1 = None
   \<and> js_get (depthArray (state_of (updateLocalDepth ex_frame ex_depth))) 0
       = Some (replicate 16 1000)
   \<and> view (state_of (updateLocalDepth ex_frame ex_depth)) = [Some 0, Some 1]
   \<and> forgetView (updateLocalDepth ex_frame ex_depth)
       = forgetView (updateLocalDepth (ex_frame\<lparr>getViewerPose := \<lambda>r. Some [0]\<rparr>) ex_depth)"
proof -
  have a: "xr_getReferenceSpace (renderer ex_depth) = Some XRReferenceSpace"
    by (simp add: ex_depth_fields ex_renderer_def)
  have b: "getViewerPose ex_frame XRReferenceSpace = Some [0, 1]"
    by (simp add: ex_frame_def)
  have c: "1 < length [0 :: nat, 1]" by simp
  have d: "depthInformationMissing ex_frame ex_depth ([0, 1] ! 1)"
    by (simp add: depthInformationMissing_def ex_frame_def ex_session_def)
  have e: "js_get (depthArray ex_depth) 1 = None" "js_at (depthViewMatrices ex_depth) 1 = None"
    by (simp_all add: ex_depth_fields js_get_def js_at_def)
  have f: "js_get (depthArray (state_of (updateLocalDepth ex_frame ex_depth))) 0
       = Some (replicate 16 1000)"
    "view (state_of (updateLocalDepth ex_frame ex_depth)) = [Some 0, Some 1]"
    by (simp_all add: ex_updateLocalDepth ex_depth_fields js_get_js_set newDepthArray_def
        ex_options_def new_Uint16Array_def ex_sample_def)
  from updateLocalDepth_aborts_at_missing_view [OF ex_depth_reachable a b c d, of 1]
    ex_depth_reachable a b c d e f
  show ?thesis by simp
qed

subsection \<open>C5: the index of getDepth\<close>



subsection \<open>C6: queries before the first frame\<close>

text \<open>
  C6. In the state after construction and \<open>init\<close>, before any frame has been
  ingested, \<open>getProjectedDepthViewPositionFromWorldPosition\<close> raises a TypeError for
  every position: it applies the absent view matrix of view 0. In the same state
  \<open>getDepth\<close> returns 0 and \<open>getVertex\<close> returns null.
\<close>

theorem getProjected_throws_initially:
  "getProjectedDepthViewPositionFromWorldPosition pos (init cam opts rend conv) = Inl TypeError
   \<and> getDepth u v (init cam opts rend conv) = Inr (Finite 0)
   \<and> getVertex u v (init cam opts rend conv) = Inr None"
  by (simp add: getProjectedDepthViewPositionFromWorldPosition_def getDepth_def getVertex_def
      init_def js_at_def js_get_def)

subsection \<open>C7: the conversion on the GPU path\<close>

text \<open>
  C7. On the GPU path, in a reachable state, \<open>updateGPUDepthData\<close> calls the conversion of the depth mesh
  exactly when the depth mesh is enabled and constructed. Otherwise it returns with
  the depth array, the width and the height as they were, and the only call on a
  collaborator is the update of the native depth texture, made when depth textures
  are enabled and constructed.
\<close>

theorem updateGPUDepthData_converts_only_for_mesh:
  assumes "reachable s"
  shows "(DepthMesh_convertGPUToGPU
            \<in> set (drop (length (calls s))
                      (calls (state_of (updateGPUDepthData depthData viewId s))))
          \<longleftrightarrow> depthMesh_enabled (options s) \<and> depthMesh s \<noteq> None)
       \<and> (\<not> (depthMesh_enabled (options s) \<and> depthMesh s \<noteq> None) \<longrightarrow>
            (\<exists>s'. updateGPUDepthData depthData viewId s = Done s'
               \<and> depthArray s' = depthArray s \<and> width s' = width s \<and> height s' = height s
               \<and> calls s' = calls s @
                    (if depthTexture_enabled (options s) \<and> depthTextures s \<noteq> None
                     then [DepthTextures_updateNativeTexture viewId] else [])))"
proof (intro conjI impI)
  from reachable_invariant [OF assms] have c: "consistent s" by simp
  from gpuIngested_calls [of depthData viewId s] obtain rest where
    "calls (state_of (gpuIngested depthData viewId s)) =
       calls s @ (if depthMesh_enabled (options s) \<and> depthMesh s \<noteq> None
                  then [DepthMesh_convertGPUToGPU] else []) @ rest"
    and "DepthMesh_convertGPUToGPU \<notin> set rest"
    by blast
  then show "DepthMesh_convertGPUToGPU
            \<in> set (drop (length (calls s))
                      (calls (state_of (updateGPUDepthData depthData viewId s))))
          \<longleftrightarrow> depthMesh_enabled (options s) \<and> depthMesh s \<noteq> None"
    by (simp add: updateGPUDepthData_closed [OF c])
next
  from reachable_invariant [OF assms] have c: "consistent s" by simp
  assume n: "\<not> (depthMesh_enabled (options s) \<and> depthMesh s \<noteq> None)"
  let ?s1 = "(updatedMatrices depthData viewId s)
               \<lparr>gpuDepthData := js_set (gpuDepthData s) viewId depthData\<rparr>"
  let ?s' = "afterStore depthData viewId s ?s1"
  have run: "updateGPUDepthData depthData viewId s = Done ?s'"
    by (simp add: updateGPUDepthData_closed [OF c] gpuIngested_no_mesh [OF n])
  from afterStore_calls [of depthData viewId s ?s1] n
  have "calls ?s' = calls s @
          (if depthTexture_enabled (options s) \<and> depthTextures s \<noteq> None
           then [DepthTextures_updateNativeTexture viewId] else [])"
    by auto
  moreover have "depthArray ?s' = depthArray s" "width ?s' = width s" "height ?s' = height s"
    by simp_all
  ultimately show "\<exists>s'. updateGPUDepthData depthData viewId s = Done s'
               \<and> depthArray s' = depthArray s \<and> width s' = width s \<and> height s' = height s
               \<and> calls s' = calls s @
                    (if depthTexture_enabled (options s) \<and> depthTextures s \<noteq> None
                     then [DepthTextures_updateNativeTexture viewId] else [])"
    using run by blast
qed

theorem updateGPUDepthData_converts_only_for_mesh_witness:
  "reachable ex_depth
   \<and> \<not> (depthMesh_enabled (options ex_depth) \<and> depthMesh ex_depth \<noteq> None)
   \<and> DepthMesh_convertGPUToGPU \<notin> set (calls (state_of (updateGPUDepthData ex_gpu 0 ex_depth)))
   \<and> depthArray (state_of (updateGPUDepthData ex_gpu 0 ex_depth)) = []
   \<and> calls (state_of (updateGPUDepthData ex_gpu 0 ex_depth)) = [DepthTextures_updateNativeTexture 0]
   \<and> reachable ex_mesh_depth
   \<and> depthMesh_enabled (options ex_mesh_depth) \<and> depthMesh ex_mesh_depth \<noteq> None
   \<and> DepthMesh_convertGPUToGPU
        \<in> set (calls (state_of (updateGPUDepthData ex_gpu 0 ex_mesh_depth)))
   \<and> js_get (depthArray (state_of (updateGPUDepthData ex_gpu 0 ex_mesh_depth))) 0
        = Some (replicate 16 1000)"
proof -
  have n: "\<not> (depthMesh_enabled (options ex_depth) \<and> depthMesh ex_depth \<noteq> None)"
    by (simp add: ex_depth_fields)
  from updateGPUDepthData_converts_only_for_mesh [OF ex_depth_reachable, of ex_gpu 0] n
  have 1: "DepthMesh_convertGPUToGPU \<notin> set (calls (state_of (updateGPUDepthData ex_gpu 0 ex_depth)))"
    and 2: "depthArray (state_of (updateGPUDepthData ex_gpu 0 ex_depth)) = []"
    and 3: "calls (state_of (updateGPUDepthData ex_gpu 0 ex_depth))
              = [DepthTextures_updateNativeTexture 0]"
    by (auto simp: ex_depth_fields ex_options_def)
  from updateGPUDepthData_converts_only_for_mesh [OF ex_mesh_depth_reachable, of ex_gpu 0]
  have 4: "DepthMesh_convertGPUToGPU
        \<in> set (calls (state_of (updateGPUDepthData ex_gpu 0 ex_mesh_depth)))"
    using ex_mesh_depth_fields(3,4) by (simp add: ex_mesh_depth_fields(1))
  have 5: "js_get (depthArray (state_of (updateGPUDepthData ex_gpu 0 ex_mesh_depth))) 0
        = Some (replicate 16 1000)"
  proof -
    have "js_get (depthArray ex_mesh_depth) 0 = None"
      by (simp add: ex_mesh_depth_fields js_get_def)
    then show ?thesis
      by (simp add: updateGPUDepthData_closed [OF ex_mesh_depth_consistent]
          gpuIngested_depthArray ex_mesh_depth_fields(5,6))
  qed
  show ?thesis
    using ex_depth_reachable n 1 2 3 ex_mesh_depth_reachable ex_mesh_depth_fields(3,4) 4 5 by simp
qed

subsection \<open>C8: the depth clients\<close>



subsection \<open>C9: getVertex\<close>



subsection \<open>C10: matrices before depth arrays\<close>

text \<open>
  C10. In every reachable state, if there is a depth array for a view, each of the
  six per-view matrix and pose arrays is longer than the index of that view, so the
  inverse projection matrix that \<open>getVertex\<close> reads for view 0 is present once the
  depth array of view 0 is.
\<close>

theorem matrices_cover_depthArray:
  assumes "reachable s" and "js_get (depthArray s) viewId \<noteq> None"
  shows "viewId < length (depthViewMatrices s)
       \<and> viewId < length (depthProjectionMatrices s)
       \<and> viewId < length (depthProjectionInverseMatrices s)
       \<and> viewId < length (depthViewProjectionMatrices s)
       \<and> viewId < length (depthCameraPositions s)
       \<and> viewId < length (depthCameraRotations s)
       \<and> js_at (depthProjectionInverseMatrices s) viewId \<noteq> None"
proof -
  from reachable_invariant [OF assms(1)] have c: "consistent s" and v: "covered s" by simp_all
  from v assms(2) have "viewId < length (depthViewMatrices s)"
    by (simp add: covered_iff)
  then show ?thesis using c by (simp add: consistent_def js_at_def)
qed

theorem matrices_cover_depthArray_witness:
  "reachable ex_ingested
   \<and> js_get (depthArray ex_ingested) 0 \<noteq> None
   \<and> 0 < length (depthViewMatrices ex_ingested)
   \<and> 0 < length (depthProjectionInverseMatrices ex_ingested)
   \<and> js_at (depthProjectionInverseMatrices ex_ingested) 0 \<noteq> None"
proof -
  have r: "reachable ex_ingested"
    unfolding ex_ingested_def ex_depth_def
    by (rule reachable_updateCPUDepthData [OF reachable_init])
  have a: "js_get (depthArray ex_ingested) 0 \<noteq> None"
    by (simp add: ex_ingested_fields js_get_def)
  from matrices_cover_depthArray [OF r a] r a show ?thesis by simp
qed

end
